theory Spec2Isabelle
  imports Complex_Main
begin

section \<open>The Cinespace .csp codec of colour/io/luts/cinespace\_csp.py\<close>

text \<open>
  The development embeds \<^verbatim>\<open>read_LUT_Cinespace\<close> and \<^verbatim>\<open>write_LUT_Cinespace\<close>.
  Exceptions are values of the type \<open>error\<close>; the file system is a map from paths to
  contents; NumPy arrays are a shape with the elements in row-major order.

  Floating point is not interpreted: the scalar type \<open>'f\<close> is a type variable and
  every operation Python or NumPy performs on a scalar (parsing, formatting, comparison,
  arithmetic) is a field of the record \<open>'f py_float\<close> that the codec takes as its first
  argument. The theorems hold for every such record. The record \<open>dec_ops\<close> at the end of the
  definitions instantiates it with exact decimal arithmetic so that the codec can be run.
\<close>

subsection \<open>Exceptions\<close>

text \<open>
  The named failures of the codec are the assertions and the \<^verbatim>\<open>raise\<close> of the source:
  \<^item> \<open>EmptyFileError\<close>: \<^verbatim>\<open>assert len(lines) > 0, 'LUT file empty!'\<close>
  \<^item> \<open>InvalidHeaderError\<close>: \<^verbatim>\<open>assert header == 'CSPLUTV100', 'Invalid header!'\<close>
  \<^item> \<open>InvalidKindError\<close>: \<^verbatim>\<open>assert kind in ('1D', '3D'), 'Invalid kind!'\<close>
  \<^item> \<open>TableSizeMismatchError\<close>: \<^verbatim>\<open>assert np.product(size) == len(table), 'Invalid table size!'\<close>
  \<^item> \<open>InvalidLUTTypeError\<close>: \<^verbatim>\<open>raise ValueError('LUT must be 1D, 3x1D, 3D, 1D + 3D or 3x1D + 3D!')\<close>
  \<^item> \<open>InvalidSequenceShapeError\<close>: \<^verbatim>\<open>assert ..., 'LUTSequence must be 1D+3D or 3x1D+3D!'\<close>
  \<^item> \<open>ShaperSizeOutOfRangeError\<close>: \<^verbatim>\<open>assert 2 <= LUT[0].size <= 65536, ...\<close>
  \<^item> \<open>CubeSizeOutOfRangeError\<close>: \<^verbatim>\<open>assert 2 <= LUT[1].size <= 256, ...\<close>

  The others are the exceptions of the Python runtime and of NumPy that the code can
  run into: an index out of range, a conversion or a reshape that fails, a file that
  does not exist, a local variable read before it is bound, a value of the wrong type.
\<close>

datatype error =
    EmptyFileError
  | InvalidHeaderError
  | InvalidKindError
  | TableSizeMismatchError
  | InvalidLUTTypeError
  | InvalidSequenceShapeError
  | ShaperSizeOutOfRangeError
  | CubeSizeOutOfRangeError
  | IndexError
  | ValueError
  | TypeError
  | UnboundLocalError
  | FileNotFoundError

text \<open>The exceptions that are not assertions of the codec.\<close>

definition runtime_errors :: "error set" where
  "runtime_errors = {IndexError, ValueError, TypeError, UnboundLocalError}"

definition bind :: "error + 'a \<Rightarrow> ('a \<Rightarrow> error + 'b) \<Rightarrow> error + 'b" where
  "bind m f = (case m of Inl e \<Rightarrow> Inl e | Inr x \<Rightarrow> f x)"

fun mapM :: "('a \<Rightarrow> error + 'b) \<Rightarrow> 'a list \<Rightarrow> error + 'b list" where
  "mapM f [] = Inr []"
| "mapM f (x # xs) = bind (f x) (\<lambda>y. bind (mapM f xs) (\<lambda>ys. Inr (y # ys)))"

definition of_option :: "error \<Rightarrow> 'a option \<Rightarrow> error + 'a" where
  "of_option e m = (case m of None \<Rightarrow> Inl e | Some x \<Rightarrow> Inr x)"

text \<open>\<^verbatim>\<open>xs[i]\<close> for a Python list and an index that is not negative.\<close>

definition index :: "'a list \<Rightarrow> nat \<Rightarrow> error + 'a" where
  "index xs i = (if i < length xs then Inr (xs ! i) else Inl IndexError)"

subsection \<open>Scalars\<close>

text \<open>
  What the codec asks of Python and NumPy about one scalar. \<open>float_of_str\<close> is
  \<^verbatim>\<open>float(s)\<close> (\<open>None\<close> when it raises), \<open>int_of_str\<close> is \<^verbatim>\<open>int(s)\<close>,
  \<open>format_f d x\<close> is \<^verbatim>\<open>'{0:.{1}f}'.format(x, d)\<close>, \<open>feq\<close> is \<^verbatim>\<open>==\<close> on floats,
  \<open>fmin\<close> and \<open>fmax\<close> are the binary minimum and maximum that \<^verbatim>\<open>np.nanmin\<close> and
  \<^verbatim>\<open>np.nanmax\<close> reduce with, \<open>of_int_f\<close> converts an integer operand of a mixed
  operation.
\<close>

record 'f py_float =
  fzero :: 'f
  fone :: 'f
  fnan :: 'f
  fisnan :: "'f \<Rightarrow> bool"
  feq :: "'f \<Rightarrow> 'f \<Rightarrow> bool"
  fadd :: "'f \<Rightarrow> 'f \<Rightarrow> 'f"
  fsub :: "'f \<Rightarrow> 'f \<Rightarrow> 'f"
  fmul :: "'f \<Rightarrow> 'f \<Rightarrow> 'f"
  fdiv :: "'f \<Rightarrow> 'f \<Rightarrow> 'f"
  fmin :: "'f \<Rightarrow> 'f \<Rightarrow> 'f"
  fmax :: "'f \<Rightarrow> 'f \<Rightarrow> 'f"
  of_int_f :: "int \<Rightarrow> 'f"
  float_of_str :: "string \<Rightarrow> 'f option"
  int_of_str :: "string \<Rightarrow> int option"
  format_f :: "nat \<Rightarrow> 'f \<Rightarrow> string"

subsection \<open>Strings and lines\<close>

text \<open>
  Characters are bytes and the text is ASCII. \<open>isspace\<close> is \<^verbatim>\<open>str.isspace\<close> on
  the ASCII range: tab, line feed, vertical tab, form feed, carriage return, the four
  separators 28 to 31 and the space.
\<close>

definition isspace :: "char \<Rightarrow> bool" where
  "isspace c = (let n = of_char c :: nat in (9 \<le> n \<and> n \<le> 13) \<or> (28 \<le> n \<and> n \<le> 32))"

definition strip :: "string \<Rightarrow> string" where
  "strip s = rev (dropWhile isspace (rev (dropWhile isspace s)))"

text \<open>\<^verbatim>\<open>s.split()\<close>: the maximal runs of characters that are not whitespace.\<close>

fun split_acc :: "string \<Rightarrow> string \<Rightarrow> string list" where
  "split_acc w [] = (if w = [] then [] else [w])"
| "split_acc w (c # cs) =
     (if isspace c then (if w = [] then split_acc [] cs else w # split_acc [] cs)
      else split_acc (w @ [c]) cs)"

definition split :: "string \<Rightarrow> string list" where
  "split s = split_acc [] s"

text \<open>
  A file opened in text mode reads with universal newlines: \<^verbatim>\<open>\r\n\<close> and a lone
  \<^verbatim>\<open>\r\<close> arrive as \<^verbatim>\<open>\n\<close>. \<open>readlines\<close> cuts after every \<^verbatim>\<open>\n\<close> and keeps it.
\<close>

fun universal_newlines :: "string \<Rightarrow> string" where
  "universal_newlines [] = []"
| "universal_newlines [c] = (if c = CHR 0x0D then [CHR 0x0A] else [c])"
| "universal_newlines (c # d # cs) =
     (if c = CHR 0x0D \<and> d = CHR 0x0A then CHR 0x0A # universal_newlines cs
      else if c = CHR 0x0D then CHR 0x0A # universal_newlines (d # cs)
      else c # universal_newlines (d # cs))"

fun lines_acc :: "string \<Rightarrow> string \<Rightarrow> string list" where
  "lines_acc w [] = (if w = [] then [] else [w])"
| "lines_acc w (c # cs) =
     (if c = CHR 0x0A then (w @ [c]) # lines_acc [] cs else lines_acc (w @ [c]) cs)"

definition readlines :: "string \<Rightarrow> string list" where
  "readlines s = lines_acc [] (universal_newlines s)"

text \<open>The content of a file in which every line of the list ends with \<^verbatim>\<open>\n\<close>.\<close>

definition file_of_lines :: "string list \<Rightarrow> string" where
  "file_of_lines ls = concat (map (\<lambda>l. l @ [CHR 0x0A]) ls)"

text \<open>\<^verbatim>\<open>'{0}'.format(n)\<close> for an integer that is not negative.\<close>

definition digit_char :: "nat \<Rightarrow> char" where
  "digit_char n = char_of (48 + n)"

function str_nat :: "nat \<Rightarrow> string" where
  "str_nat n = (if n < 10 then [digit_char n] else str_nat (n div 10) @ [digit_char (n mod 10)])"
  by pat_completeness auto
termination
  by (relation "measure id") auto

declare str_nat.simps [simp del]

subsection \<open>NumPy arrays\<close>

text \<open>
  An array is its shape and its elements in row-major (C) order, as NumPy stores a
  freshly built array.
\<close>

record 'a ndarray =
  shape :: "nat list"
  data :: "'a list"

definition wf_array :: "'a ndarray \<Rightarrow> bool" where
  "wf_array a = (length (data a) = prod_list (shape a))"

text \<open>Position of a multi-index in row-major and in column-major (Fortran) order.\<close>

fun c_index :: "nat list \<Rightarrow> nat list \<Rightarrow> nat" where
  "c_index (d # ds) (i # is) = i * prod_list ds + c_index ds is"
| "c_index _ _ = 0"

fun f_index :: "nat list \<Rightarrow> nat list \<Rightarrow> nat" where
  "f_index (d # ds) (i # is) = i + d * f_index ds is"
| "f_index _ _ = 0"

text \<open>The multi-index at a column-major position: the first axis varies fastest.\<close>

fun unravel_F :: "nat list \<Rightarrow> nat \<Rightarrow> nat list" where
  "unravel_F [] q = []"
| "unravel_F (d # ds) q = (q mod d) # unravel_F ds (q div d)"

fun valid_index :: "nat list \<Rightarrow> nat list \<Rightarrow> bool" where
  "valid_index [] [] = True"
| "valid_index (d # ds) (i # is) = (i < d \<and> valid_index ds is)"
| "valid_index _ _ = False"

text \<open>\<^verbatim>\<open>a[i0][i1]...\<close> with one index for every axis.\<close>

definition item :: "'a ndarray \<Rightarrow> nat list \<Rightarrow> error + 'a" where
  "item a idx =
     (if length idx > length (shape a) then Inl IndexError
      else if length idx < length (shape a) then Inl TypeError
      else if valid_index (shape a) idx then Inr (data a ! c_index (shape a) idx)
      else Inl IndexError)"

text \<open>\<^verbatim>\<open>a.ravel(order='F')\<close>: the elements read in column-major order.\<close>

definition ravel_F :: "'a ndarray \<Rightarrow> 'a list" where
  "ravel_F a = map (\<lambda>q. data a ! c_index (shape a) (unravel_F (shape a) q))
                   [0 ..< prod_list (shape a)]"

text \<open>\<^verbatim>\<open>a.transpose()\<close> reverses the axes: its row-major elements are the
  column-major elements of \<open>a\<close>.\<close>

definition transpose_nd :: "'a ndarray \<Rightarrow> 'a ndarray" where
  "transpose_nd a = \<lparr>shape = rev (shape a), data = ravel_F a\<rparr>"

text \<open>\<^verbatim>\<open>a.reshape(shp)\<close> in row-major order keeps the elements in place.\<close>

definition reshape :: "nat list \<Rightarrow> 'a ndarray \<Rightarrow> error + 'a ndarray" where
  "reshape shp a =
     (if prod_list shp = prod_list (shape a) then Inr \<lparr>shape = shp, data = data a\<rparr>
      else Inl ValueError)"

text \<open>
  \<^verbatim>\<open>a.reshape(shp, order='F')\<close> reads the elements of \<open>a\<close> in column-major order and
  places them in column-major order: NumPy's \<^verbatim>\<open>a.T.reshape(shp[::-1]).T\<close>.
\<close>

definition reshape_F :: "nat list \<Rightarrow> 'a ndarray \<Rightarrow> error + 'a ndarray" where
  "reshape_F shp a =
     bind (reshape (rev shp) (transpose_nd a)) (\<lambda>r. Inr (transpose_nd r))"

text \<open>\<^verbatim>\<open>a[lo:hi]\<close> along the first axis.\<close>

definition slice_rows :: "nat \<Rightarrow> nat \<Rightarrow> 'a ndarray \<Rightarrow> error + 'a ndarray" where
  "slice_rows lo hi a =
     (case shape a of
        [] \<Rightarrow> Inl IndexError
      | n # ds \<Rightarrow>
          let hi' = min hi n; lo' = min lo hi'; w = prod_list ds
          in Inr \<lparr>shape = (hi' - lo') # ds,
                  data = take ((hi' - lo') * w) (drop (lo' * w) (data a))\<rparr>)"

text \<open>\<^verbatim>\<open>a[i]\<close>: the sub-array at position \<open>i\<close> of the first axis.\<close>

definition getrow :: "'a ndarray \<Rightarrow> nat \<Rightarrow> error + 'a ndarray" where
  "getrow a i =
     (case shape a of
        [] \<Rightarrow> Inl IndexError
      | n # ds \<Rightarrow>
          if i < n
          then Inr \<lparr>shape = ds,
                    data = take (prod_list ds) (drop (i * prod_list ds) (data a))\<rparr>
          else Inl IndexError)"

text \<open>\<^verbatim>\<open>len(a)\<close>.\<close>

definition len :: "'a ndarray \<Rightarrow> error + nat" where
  "len a = (case shape a of [] \<Rightarrow> Inl TypeError | n # ds \<Rightarrow> Inr n)"

text \<open>\<^verbatim>\<open>np.array_equal(a, b)\<close>: same shape and all elements equal under \<^verbatim>\<open>==\<close>.\<close>

definition array_equal :: "'f py_float \<Rightarrow> 'f ndarray \<Rightarrow> 'f ndarray \<Rightarrow> bool" where
  "array_equal P a b = (shape a = shape b \<and> list_all2 (feq P) (data a) (data b))"

text \<open>\<^verbatim>\<open>np.asarray(xs)\<close> for a list of scalars.\<close>

definition array1 :: "'a list \<Rightarrow> 'a ndarray" where
  "array1 xs = \<lparr>shape = [length xs], data = xs\<rparr>"

text \<open>
  \<^verbatim>\<open>np.asarray(rows)\<close> for a list of lists of scalars: no row gives the empty array
  of shape \<open>(0,)\<close>, rows of one length give a matrix, and ragged rows raise.
\<close>

definition array2 :: "'a list list \<Rightarrow> error + 'a ndarray" where
  "array2 rows =
     (case rows of
        [] \<Rightarrow> Inr \<lparr>shape = [0], data = []\<rparr>
      | r # rs \<Rightarrow>
          if list_all (\<lambda>x. length x = length r) rs
          then Inr \<lparr>shape = [length rows, length r], data = concat rows\<rparr>
          else Inl ValueError)"

text \<open>
  \<^verbatim>\<open>np.pad(row, (0, w), mode='constant', constant_values=np.nan)\<close> for a row of one
  axis: a negative width raises.
\<close>

definition pad :: "'f py_float \<Rightarrow> 'f list \<Rightarrow> int \<Rightarrow> error + 'f list" where
  "pad P row w = (if w < 0 then Inl ValueError else Inr (row @ replicate (nat w) (fnan P)))"

text \<open>
  Modelled from the spec: \<^verbatim>\<open>colour.utilities.tstack\<close> and \<^verbatim>\<open>tsplit\<close>, which are
  not part of the sources at hand. \<open>tstack\<close> stacks three arrays of one shape along
  a new last axis (three rows become the three columns of a matrix); \<open>tsplit\<close> splits an
  array along its last axis, and the codec unpacks the result into three, which needs a
  last axis of length three; the codec calls it on matrices.
\<close>

definition tstack :: "'a ndarray \<Rightarrow> 'a ndarray \<Rightarrow> 'a ndarray \<Rightarrow> error + 'a ndarray" where
  "tstack r g b =
     (if shape r = shape g \<and> shape g = shape b
      then Inr \<lparr>shape = shape r @ [3],
                data = concat (map (\<lambda>j. [data r ! j, data g ! j, data b ! j])
                                   [0 ..< prod_list (shape r)])\<rparr>
      else Inl ValueError)"

definition tsplit :: "'a ndarray \<Rightarrow> error + ('a ndarray \<times> 'a ndarray \<times> 'a ndarray)" where
  "tsplit a =
     (case shape a of
        [n, c] \<Rightarrow>
          if c = 3
          then Inr (\<lparr>shape = [n], data = map (\<lambda>j. data a ! (j * 3)) [0 ..< n]\<rparr>,
                    \<lparr>shape = [n], data = map (\<lambda>j. data a ! (j * 3 + 1)) [0 ..< n]\<rparr>,
                    \<lparr>shape = [n], data = map (\<lambda>j. data a ! (j * 3 + 2)) [0 ..< n]\<rparr>)
          else Inl ValueError
      | _ \<Rightarrow> Inl ValueError)"

text \<open>
  Modelled from the spec: \<^verbatim>\<open>colour.utilities.as_float_array\<close> and
  \<^verbatim>\<open>as_int_array\<close>, which are not part of the sources at hand: every token is
  converted, and one token that does not convert raises. Integers are unbounded.
\<close>

definition floats_of_tokens :: "'f py_float \<Rightarrow> string list \<Rightarrow> error + 'f list" where
  "floats_of_tokens P ts = mapM (\<lambda>t. of_option ValueError (float_of_str P t)) ts"

definition as_int_array :: "'f py_float \<Rightarrow> string list \<Rightarrow> error + int list" where
  "as_int_array P ts = mapM (\<lambda>t. of_option ValueError (int_of_str P t)) ts"

text \<open>\<^verbatim>\<open>np.nanmin(a)\<close> and \<^verbatim>\<open>np.nanmax(a)\<close>: the reduction over all elements of
  the array that are not NaN; NaN when there is none, and an exception on an empty
  array.\<close>

definition nanmin :: "'f py_float \<Rightarrow> 'f ndarray \<Rightarrow> error + 'f" where
  "nanmin P a =
     (if data a = [] then Inl ValueError
      else Inr (case filter (\<lambda>x. \<not> fisnan P x) (data a) of
                  [] \<Rightarrow> fnan P
                | y # ys \<Rightarrow> foldl (fmin P) y ys))"

definition nanmax :: "'f py_float \<Rightarrow> 'f ndarray \<Rightarrow> error + 'f" where
  "nanmax P a =
     (if data a = [] then Inl ValueError
      else Inr (case filter (\<lambda>x. \<not> fisnan P x) (data a) of
                  [] \<Rightarrow> fnan P
                | y # ys \<Rightarrow> foldl (fmax P) y ys))"

subsection \<open>LUT values\<close>

text \<open>
  Modelled from the spec: the classes \<^verbatim>\<open>LUT1D\<close>, \<^verbatim>\<open>LUT3x1D\<close>, \<^verbatim>\<open>LUT3D\<close> and
  \<^verbatim>\<open>LUTSequence\<close> of \<^verbatim>\<open>colour.io.luts\<close>, which are not part of the sources at hand.
  A LUT has the attributes \<open>table\<close>, \<open>name\<close>, \<open>domain\<close> and \<open>comments\<close>; a sequence is
  an ordered list of stages. \<open>NotALUT\<close> stands for any object of another class.
\<close>

record 'f lut =
  table :: "'f ndarray"
  name :: string
  domain :: "'f ndarray"
  comments :: "string list"

datatype 'f pyobj =
    LUT1D "'f lut"
  | LUT3x1D "'f lut"
  | LUT3D "'f lut"
  | LUTSequence "'f pyobj list"
  | NotALUT

text \<open>\<^verbatim>\<open>unity_range = np.array([[0., 0., 0.], [1., 1., 1.]])\<close>\<close>

definition unity_range :: "'f py_float \<Rightarrow> 'f ndarray" where
  "unity_range P =
     \<lparr>shape = [2, 3], data = [fzero P, fzero P, fzero P, fone P, fone P, fone P]\<rparr>"

subsection \<open>The reader\<close>

definition parse_metadata_section :: "string list \<Rightarrow> string \<times> string list" where
  "parse_metadata_section metadata =
     (if length metadata > 0 then (hd metadata, tl metadata) else ([], []))"

text \<open>
  The loop over \<^verbatim>\<open>enumerate(lines[2:])\<close>: the state is \<open>seek\<close>, \<open>is_metadata\<close>
  and \<open>metadata\<close>, and \<open>i\<close> counts the lines.
\<close>

fun metadata_loop ::
  "nat \<Rightarrow> bool \<Rightarrow> string list \<Rightarrow> nat \<Rightarrow> string list \<Rightarrow> nat \<times> string list" where
  "metadata_loop seek is_metadata metadata i [] = (seek, metadata)"
| "metadata_loop seek is_metadata metadata i (l # ls) =
     (let line = strip l in
      if line = ''BEGIN METADATA'' then metadata_loop seek True metadata (i + 1) ls
      else if line = ''END METADATA'' then (seek + i, metadata)
      else metadata_loop seek is_metadata
             (if is_metadata then metadata @ [line] else metadata) (i + 1) ls)"

definition parse_domain_section :: "'f py_float \<Rightarrow> string list \<Rightarrow> error + 'f ndarray" where
  "parse_domain_section P lines =
     bind (mapM (\<lambda>i. bind (index lines i) (\<lambda>l. of_option ValueError (int_of_str P l)))
                [0, 3, 6]) (\<lambda>sizes.
     let pre_LUT_size = foldl max (hd sizes) (tl sizes) in
     bind (mapM (\<lambda>i. bind (index lines i) (\<lambda>l. floats_of_tokens P (split l)))
                [1, 2, 4, 5, 7, 8]) (\<lambda>pre_LUT.
     bind (mapM (\<lambda>row. if int (length row) \<noteq> pre_LUT_size
                        then pad P row (pre_LUT_size - int (length row))
                        else Inr row) pre_LUT) (\<lambda>pre_LUT_padded.
     array2 pre_LUT_padded)))"

definition parse_table_section ::
  "'f py_float \<Rightarrow> string list \<Rightarrow> error + (int list \<times> 'f ndarray)" where
  "parse_table_section P lines =
     bind (index lines 0) (\<lambda>l0.
     bind (as_int_array P (split l0)) (\<lambda>size'.
     bind (mapM (\<lambda>line. floats_of_tokens P (split line)) (tl lines)) (\<lambda>rows.
     bind (array2 rows) (\<lambda>table'.
     Inr (size', table')))))"

text \<open>
  \<^verbatim>\<open>table.reshape([size[0], size[1], size[2], 3], order='F')\<close>: the three sizes are
  read from the size line, and NumPy refuses a negative dimension (a single \<open>-1\<close> is a
  dimension to infer, which cannot succeed here since the product of the size line is the
  number of rows).
\<close>

definition reshape_table :: "int list \<Rightarrow> 'f ndarray \<Rightarrow> error + 'f ndarray" where
  "reshape_table size' table' =
     bind (index size' 0) (\<lambda>s0.
     bind (index size' 1) (\<lambda>s1.
     bind (index size' 2) (\<lambda>s2.
     if s0 < 0 \<or> s1 < 0 \<or> s2 < 0 then Inl ValueError
     else reshape_F [nat s0, nat s1, nat s2, 3] table')))"

text \<open>
  Modelled from the spec: the constructors \<^verbatim>\<open>LUT3x1D(table, name, domain, comments)\<close>
  and \<^verbatim>\<open>LUT3D(...)\<close> store their arguments; a domain that is not given is the unity
  range and comments that are not given are the empty list.
\<close>

definition mk_lut ::
  "'f ndarray \<Rightarrow> string \<Rightarrow> 'f ndarray \<Rightarrow> string list \<Rightarrow> 'f lut" where
  "mk_lut t n d c = \<lparr>table = t, name = n, domain = d, comments = c\<rparr>"

text \<open>
  The test of both collapsing branches:
  \<^verbatim>\<open>pre_LUT.shape == (6, 2) and np.array_equal(pre_LUT.reshape(3, 4).transpose()[2:4], unity_range)\<close>
\<close>

definition is_unity_shaper :: "'f py_float \<Rightarrow> 'f ndarray \<Rightarrow> error + bool" where
  "is_unity_shaper P pre_LUT =
     (if shape pre_LUT = [6, 2]
      then bind (reshape [3, 4] pre_LUT) (\<lambda>r.
           bind (slice_rows 2 4 (transpose_nd r)) (\<lambda>s.
           Inr (array_equal P s (unity_range P))))
      else Inr False)"

text \<open>
  What the test comes to on the six rows of a shaper block, written out for the
  statements below: the block has two samples per row, and the table row of every channel
  (rows 1, 3 and 5, at the positions 2 and 3, 6 and 7, 10 and 11 of the elements) is
  0 and 1. The domain rows (rows 0, 2 and 4) are not looked at.
\<close>

definition table_samples_unity :: "'f py_float \<Rightarrow> 'f ndarray \<Rightarrow> bool" where
  "table_samples_unity P a =
     (shape a = [6, 2] \<and>
      feq P (data a ! 2) (fzero P) \<and> feq P (data a ! 3) (fone P) \<and>
      feq P (data a ! 6) (fzero P) \<and> feq P (data a ! 7) (fone P) \<and>
      feq P (data a ! 10) (fzero P) \<and> feq P (data a ! 11) (fone P))"

text \<open>\<^verbatim>\<open>pre_LUT.reshape(3, 4).transpose()[0:2]\<close>\<close>

definition collapsed_domain :: "'f ndarray \<Rightarrow> error + 'f ndarray" where
  "collapsed_domain pre_LUT =
     bind (reshape [3, 4] pre_LUT) (\<lambda>r. slice_rows 0 2 (transpose_nd r))"

text \<open>\<^verbatim>\<open>tstack((pre_LUT[a], pre_LUT[b], pre_LUT[c]))\<close>\<close>

definition tstack_rows :: "'f ndarray \<Rightarrow> nat \<Rightarrow> nat \<Rightarrow> nat \<Rightarrow> error + 'f ndarray" where
  "tstack_rows pre_LUT a b c =
     bind (getrow pre_LUT a) (\<lambda>r.
     bind (getrow pre_LUT b) (\<lambda>g.
     bind (getrow pre_LUT c) (\<lambda>bl. tstack r g bl)))"

text \<open>
  \<^verbatim>\<open>pre_table *= (table_max - table_min); pre_table += table_min\<close> with
  \<^verbatim>\<open>table_max = table[1]\<close> and \<^verbatim>\<open>table_min = table[0]\<close>: the rows of three broadcast
  over the rows of the shaper table.
\<close>

definition rescale ::
  "'f py_float \<Rightarrow> 'f ndarray \<Rightarrow> 'f list \<Rightarrow> 'f list \<Rightarrow> 'f ndarray" where
  "rescale P pre_table table_min table_max =
     \<lparr>shape = shape pre_table,
      data = map (\<lambda>p. fadd P (fmul P (data pre_table ! p)
                                      (fsub P (table_max ! (p mod 3)) (table_min ! (p mod 3))))
                              (table_min ! (p mod 3)))
                 [0 ..< length (data pre_table)]\<rparr>"

text \<open>
  Everything the reader has parsed when it reaches the assertion on the table size;
  \<open>table_lines\<close> is \<^verbatim>\<open>lines[seek:]\<close>, the lines handed to
  \<^verbatim>\<open>_parse_table_section\<close>: the size line and the rows of the table.
\<close>

record 'f parsed =
  is_3D :: bool
  title :: string
  file_comments :: "string list"
  pre_LUT :: "'f ndarray"
  table_lines :: "string list"
  size_line :: "int list"
  file_table :: "'f ndarray"

definition parse_file :: "'f py_float \<Rightarrow> string \<Rightarrow> error + 'f parsed" where
  "parse_file P content =
     (let lines0 = readlines content in
      if \<not> length lines0 > 0 then Inl EmptyFileError
      else
        let lines = map strip (filter (\<lambda>line. strip line \<noteq> []) lines0) in
        bind (index lines 0) (\<lambda>header.
        if header \<noteq> ''CSPLUTV100'' then Inl InvalidHeaderError
        else
          bind (index lines 1) (\<lambda>kind.
          if kind \<noteq> ''1D'' \<and> kind \<noteq> ''3D'' then Inl InvalidKindError
          else
            let (seek, metadata) = metadata_loop 2 False [] 0 (drop 2 lines);
                (ttl, cmts) = parse_metadata_section metadata;
                seek1 = seek + 1
            in
            bind (parse_domain_section P (take 9 (drop seek1 lines))) (\<lambda>pre.
            bind (parse_table_section P (drop (seek1 + 9) lines)) (\<lambda>(size', tbl).
            Inr \<lparr>is_3D = (kind = ''3D''), title = ttl, file_comments = cmts,
                 pre_LUT = pre, table_lines = drop (seek1 + 9) lines,
                 size_line = size', file_table = tbl\<rparr>)))))"

text \<open>The branches after the assertion on the table size, in the order of the source.\<close>

definition assemble :: "'f py_float \<Rightarrow> 'f parsed \<Rightarrow> error + 'f pyobj" where
  "assemble P p =
     bind (is_unity_shaper P (pre_LUT p)) (\<lambda>unity.
     if is_3D p \<and> unity then
       bind (reshape_table (size_line p) (file_table p)) (\<lambda>tbl.
       bind (collapsed_domain (pre_LUT p)) (\<lambda>dom.
       Inr (LUT3D (mk_lut tbl (title p) dom (file_comments p)))))
     else if \<not> is_3D p \<and> unity then
       bind (collapsed_domain (pre_LUT p)) (\<lambda>dom.
       Inr (LUT3x1D (mk_lut (file_table p) (title p) dom (file_comments p))))
     else if is_3D p then
       bind (tstack_rows (pre_LUT p) 0 2 4) (\<lambda>pre_domain.
       bind (tstack_rows (pre_LUT p) 1 3 5) (\<lambda>pre_table.
       bind (reshape_table (size_line p) (file_table p)) (\<lambda>tbl.
       Inr (LUTSequence
              [LUT3x1D (mk_lut pre_table (title p @ '' - Shaper'') pre_domain []),
               LUT3D (mk_lut tbl (title p @ '' - Cube'') (unity_range P)
                        (file_comments p))]))))
     else
       bind (tstack_rows (pre_LUT p) 0 2 4) (\<lambda>pre_domain.
       bind (tstack_rows (pre_LUT p) 1 3 5) (\<lambda>pre_table.
       if shape (file_table p) = [2, 3] then
         bind (getrow (file_table p) 1) (\<lambda>table_max.
         bind (getrow (file_table p) 0) (\<lambda>table_min.
         Inr (LUT3x1D (mk_lut (rescale P pre_table (data table_min) (data table_max))
                         (title p) pre_domain (file_comments p)))))
       else
         Inr (LUTSequence
                [LUT3x1D (mk_lut pre_table (title p @ '' - PreLUT'') pre_domain []),
                 LUT3x1D (mk_lut (file_table p) (title p @ '' - Table'') (unity_range P)
                            (file_comments p))]))))"

definition read_LUT_Cinespace ::
  "'f py_float \<Rightarrow> (string \<Rightarrow> string option) \<Rightarrow> string \<Rightarrow> error + 'f pyobj" where
  "read_LUT_Cinespace P fs path =
     (case fs path of
        None \<Rightarrow> Inl FileNotFoundError
      | Some content \<Rightarrow>
          bind (parse_file P content) (\<lambda>p.
          bind (len (file_table p)) (\<lambda>n.
          if prod_list (size_line p) \<noteq> int n then Inl TableSizeMismatchError
          else assemble P p)))"

subsection \<open>The writer\<close>

text \<open>
  Modelled from the spec: the attributes and methods of the LUT classes that the
  writer calls, which are not part of the sources at hand. \<^verbatim>\<open>LUT.size\<close> is the
  length of the first axis of the table. \<^verbatim>\<open>is_domain_explicit()\<close> holds when the
  domain is not a pair of a minimum and a maximum row. \<^verbatim>\<open>as_LUT(LUT3x1D)\<close> on a
  \<^verbatim>\<open>LUT1D\<close> repeats the table and the domain for the three channels. \<^verbatim>\<open>LUT3D()\<close>
  and \<^verbatim>\<open>LUT3x1D()\<close> without arguments are the empty LUT the writer pairs a single
  LUT with; the writer reads nothing but the comments from it, and there are none.
\<close>

definition lut_size :: "'f lut \<Rightarrow> error + nat" where
  "lut_size l = index (shape (table l)) 0"

definition is_domain_explicit :: "'f lut \<Rightarrow> bool" where
  "is_domain_explicit l = (case shape (domain l) of [] \<Rightarrow> True | n # ds \<Rightarrow> n \<noteq> 2)"

definition as_LUT3x1D :: "'f lut \<Rightarrow> error + 'f lut" where
  "as_LUT3x1D l =
     bind (tstack (table l) (table l) (table l)) (\<lambda>t.
     bind (tstack (domain l) (domain l) (domain l)) (\<lambda>d.
     Inr (l\<lparr>table := t, domain := d\<rparr>)))"

definition empty_LUT :: "'f py_float \<Rightarrow> 'f lut" where
  "empty_LUT P = mk_lut \<lparr>shape = [0], data = []\<rparr> [] (unity_range P) []"

fun isinstance_LUT1D :: "'f pyobj \<Rightarrow> bool" where
  "isinstance_LUT1D (LUT1D l) = True"
| "isinstance_LUT1D _ = False"

fun isinstance_LUT3x1D :: "'f pyobj \<Rightarrow> bool" where
  "isinstance_LUT3x1D (LUT3x1D l) = True"
| "isinstance_LUT3x1D _ = False"

fun isinstance_LUT3D :: "'f pyobj \<Rightarrow> bool" where
  "isinstance_LUT3D (LUT3D l) = True"
| "isinstance_LUT3D _ = False"

text \<open>
  The local state of the writer after its first block: the three flags, the name, and
  the two stages \<^verbatim>\<open>LUT[0]\<close> and \<^verbatim>\<open>LUT[1]\<close> of the sequence it serialises.
\<close>

record 'f canonical =
  has_3D :: bool
  has_3x1D :: bool
  non_uniform :: bool
  lut_name :: string
  stage0 :: "'f lut"
  stage1 :: "'f lut"

text \<open>
  The first block of the writer. The second component of the result is the object the
  caller passed, as it is after the block: the three single-LUT branches bind the local
  variable to a new sequence, the sequence branch assigns to \<^verbatim>\<open>LUT[0]\<close> of the
  caller's sequence.
\<close>

fun normalise :: "'f py_float \<Rightarrow> 'f pyobj \<Rightarrow> error + ('f canonical \<times> 'f pyobj)" where
  "normalise P (LUTSequence stages) =
     (if \<not> (length stages = 2 \<and>
             (isinstance_LUT1D (stages ! 0) \<or> isinstance_LUT3x1D (stages ! 0)) \<and>
             isinstance_LUT3D (stages ! 1))
      then Inl InvalidSequenceShapeError
      else
        (case (stages ! 0, stages ! 1) of
           (LUT1D a, LUT3D b) \<Rightarrow>
             bind (as_LUT3x1D a) (\<lambda>a'.
             Inr (\<lparr>has_3D = True, has_3x1D = True, non_uniform = is_domain_explicit a,
                   lut_name = name b, stage0 = a', stage1 = b\<rparr>,
                  LUTSequence (stages[0 := LUT3x1D a'])))
         | (LUT3x1D a, LUT3D b) \<Rightarrow>
             Inr (\<lparr>has_3D = True, has_3x1D = True, non_uniform = False,
                   lut_name = name b, stage0 = a, stage1 = b\<rparr>,
                  LUTSequence stages)
         | _ \<Rightarrow> Inl InvalidSequenceShapeError))"
| "normalise P (LUT1D l) =
     bind (as_LUT3x1D l) (\<lambda>l'.
     Inr (\<lparr>has_3D = False, has_3x1D = True, non_uniform = is_domain_explicit l,
           lut_name = name l, stage0 = l', stage1 = empty_LUT P\<rparr>,
          LUT1D l))"
| "normalise P (LUT3x1D l) =
     Inr (\<lparr>has_3D = False, has_3x1D = True, non_uniform = is_domain_explicit l,
           lut_name = name l, stage0 = l, stage1 = empty_LUT P\<rparr>,
          LUT3x1D l)"
| "normalise P (LUT3D l) =
     Inr (\<lparr>has_3D = True, has_3x1D = False, non_uniform = False,
           lut_name = name l, stage0 = empty_LUT P, stage1 = l\<rparr>,
          LUT3D l)"
| "normalise P NotALUT = Inl InvalidLUTTypeError"

text \<open>The two assertions on the sizes.\<close>

definition check_sizes :: "'f canonical \<Rightarrow> error + unit" where
  "check_sizes c =
     bind (if has_3x1D c
           then bind (lut_size (stage0 c)) (\<lambda>n.
                if 2 \<le> n \<and> n \<le> 65536 then Inr () else Inl ShaperSizeOutOfRangeError)
           else Inr ()) (\<lambda>_.
     if has_3D c
     then bind (lut_size (stage1 c)) (\<lambda>n.
          if 2 \<le> n \<and> n \<le> 256 then Inr () else Inl CubeSizeOutOfRangeError)
     else Inr ())"

definition ragged_size :: "'f py_float \<Rightarrow> 'f ndarray \<Rightarrow> error + nat list" where
  "ragged_size P tbl =
     bind (tsplit tbl) (\<lambda>(R, G, B).
     bind (index (rev (shape R)) 0) (\<lambda>R_n.
     bind (index (rev (shape G)) 0) (\<lambda>G_n.
     bind (index (rev (shape B)) 0) (\<lambda>B_n.
     Inr [R_n - length (filter (fisnan P) (data R)),
          G_n - length (filter (fisnan P) (data G)),
          B_n - length (filter (fisnan P) (data B))]))))"

text \<open>
  \<^verbatim>\<open>'{1:0.{0}f} {2:0.{0}f} {3:0.{0}f}'.format(decimals, *array)\<close> and the same
  with two fields.
\<close>

definition format_array :: "'f py_float \<Rightarrow> nat \<Rightarrow> 'f list \<Rightarrow> error + string" where
  "format_array P decimals array =
     (case array of
        r # g # b # _ \<Rightarrow>
          Inr (format_f P decimals r @ '' '' @ format_f P decimals g @ '' '' @
               format_f P decimals b)
      | _ \<Rightarrow> Inl IndexError)"

definition format_tuple :: "'f py_float \<Rightarrow> nat \<Rightarrow> 'f list \<Rightarrow> error + string" where
  "format_tuple P decimals array =
     (case array of
        a # b # _ \<Rightarrow> Inr (format_f P decimals a @ '' '' @ format_f P decimals b)
      | _ \<Rightarrow> Inl IndexError)"

text \<open>
  What happens between \<^verbatim>\<open>open\<close> and the end of the \<^verbatim>\<open>with\<close> block is a list of
  actions: a string that is written, or an exception raised before the next write. The
  file holds what was written before the first exception.
\<close>

type_synonym action = "error + string"

fun run :: "action list \<Rightarrow> string \<Rightarrow> string \<times> error option" where
  "run [] acc = (acc, None)"
| "run (Inl e # as) acc = (acc, Some e)"
| "run (Inr s # as) acc = run as (acc @ s)"

definition newline :: string where
  "newline = [CHR 0x0A]"

text \<open>\<^verbatim>\<open>for row in table: csp_file.write('{0}\n'.format(_format_array(row)))\<close>\<close>

definition row_actions :: "'f py_float \<Rightarrow> nat \<Rightarrow> 'f ndarray \<Rightarrow> action list" where
  "row_actions P decimals tbl =
     (case shape tbl of
        [n, k] \<Rightarrow>
          map (\<lambda>j. bind (format_array P decimals (take k (drop (j * k) (data tbl))))
                        (\<lambda>s. Inr (s @ newline))) [0 ..< n]
      | [n] \<Rightarrow> (if n = 0 then [] else [Inl TypeError])
      | _ \<Rightarrow> [Inl TypeError])"

text \<open>The metadata block.\<close>

definition metadata_actions :: "'f canonical \<Rightarrow> action list" where
  "metadata_actions c =
     [Inr (''BEGIN METADATA'' @ newline), Inr (lut_name c @ newline)] @
     (if comments (stage0 c) \<noteq> []
      then map (\<lambda>comment. Inr (comment @ newline)) (comments (stage0 c)) else []) @
     (if comments (stage1 c) \<noteq> []
      then map (\<lambda>comment. Inr (comment @ newline)) (comments (stage1 c)) else []) @
     [Inr (''END METADATA'' @ newline @ newline)]"

text \<open>
  \<^verbatim>\<open>table_min = np.nanmin(LUT[0].table)\<close> and \<^verbatim>\<open>table_max = np.nanmax(LUT[0].table)\<close>,
  bound only where the domain of the shaper is explicit.
\<close>

definition table_min_max :: "'f py_float \<Rightarrow> 'f lut \<Rightarrow> error + ('f \<times> 'f)" where
  "table_min_max P l =
     (if is_domain_explicit l
      then bind (nanmin P (table l)) (\<lambda>table_min.
           bind (nanmax P (table l)) (\<lambda>table_max. Inr (table_min, table_max)))
      else Inl UnboundLocalError)"

text \<open>One turn of the loop over the channels where there is a shaper.\<close>

definition shaper_group ::
  "'f py_float \<Rightarrow> nat \<Rightarrow> bool \<Rightarrow> 'f lut \<Rightarrow> nat \<Rightarrow> action list" where
  "shaper_group P decimals non_unif l i =
     (case (if is_domain_explicit l
            then bind (ragged_size P (domain l)) (\<lambda>rs.
                 bind (index rs i) (\<lambda>n.
                 bind (table_min_max P l) (\<lambda>_. Inr n)))
            else lut_size l) of
        Inl e \<Rightarrow> [Inl e]
      | Inr size' \<Rightarrow>
          [Inr (str_nat size' @ newline)] @
          map (\<lambda>j.
                 bind (if is_domain_explicit l then item (domain l) [j, i]
                       else bind (item (domain l) [0, i]) (\<lambda>d0.
                            bind (item (domain l) [1, i]) (\<lambda>d1.
                            bind (lut_size l) (\<lambda>n.
                            Inr (fadd P d0
                                   (fdiv P (fmul P (of_int_f P (int j)) (fsub P d1 d0))
                                           (of_int_f P (int n - 1)))))))) (\<lambda>entry.
                 Inr (format_f P decimals entry @ '' ''))) [0 ..< size'] @
          [Inr newline] @
          map (\<lambda>j.
                 bind (item (table l) [j, i]) (\<lambda>entry.
                 bind (if non_unif
                       then bind (table_min_max P l) (\<lambda>(table_min, table_max).
                            Inr (fdiv P (fsub P entry table_min)
                                        (fsub P table_max table_min)))
                       else Inr entry) (\<lambda>entry.
                 Inr (format_f P decimals entry @ '' '')))) [0 ..< size'] @
          [Inr newline])"

text \<open>One turn of the loop over the channels where there is only a cube.\<close>

definition identity_group :: "'f py_float \<Rightarrow> nat \<Rightarrow> 'f lut \<Rightarrow> nat \<Rightarrow> action list" where
  "identity_group P decimals l i =
     [Inr (''2'' @ newline),
      bind (item (domain l) [0, i]) (\<lambda>d0.
      bind (item (domain l) [1, i]) (\<lambda>d1.
      bind (format_tuple P decimals [d0, d1]) (\<lambda>s. Inr (s @ newline)))),
      Inr (format_f P decimals (of_int_f P 0) @ '' '' @
           format_f P decimals (of_int_f P 1) @ newline)]"

text \<open>One turn of the loop over the channels of a uniform shaper written alone.\<close>

definition uniform_group :: "'f py_float \<Rightarrow> nat \<Rightarrow> 'f lut \<Rightarrow> nat \<Rightarrow> action list" where
  "uniform_group P decimals l i =
     [Inr (''2'' @ newline),
      bind (item (domain l) [0, i]) (\<lambda>d0.
      bind (item (domain l) [1, i]) (\<lambda>d1.
      bind (format_tuple P decimals [d0, d1]) (\<lambda>s. Inr (s @ newline)))),
      Inr (''0.0 1.0'' @ newline)]"

text \<open>The two rows that stand for the table when the shaper is not uniform.\<close>

definition min_max_actions :: "'f py_float \<Rightarrow> nat \<Rightarrow> 'f lut \<Rightarrow> action list" where
  "min_max_actions P decimals l =
     [Inr (newline @ ''2'' @ newline),
      bind (table_min_max P l) (\<lambda>(table_min, table_max).
      bind (format_array P decimals [table_min, table_min, table_min]) (\<lambda>s.
      Inr (s @ newline))),
      bind (table_min_max P l) (\<lambda>(table_min, table_max).
      bind (format_array P decimals [table_max, table_max, table_max]) (\<lambda>s.
      Inr (s @ newline)))]"

text \<open>
  The cube: the three sizes, then
  \<^verbatim>\<open>LUT[1].table.reshape([-1, 3], order='F')\<close> row by row. The dimension \<open>-1\<close> is the
  number of elements divided by three, and NumPy raises when three does not divide it.
\<close>

definition cube_actions :: "'f py_float \<Rightarrow> nat \<Rightarrow> 'f lut \<Rightarrow> action list" where
  "cube_actions P decimals l =
     (case shape (table l) of
        s0 # s1 # s2 # _ \<Rightarrow>
          [Inr (newline @ str_nat s0 @ '' '' @ str_nat s1 @ '' '' @ str_nat s2 @ newline)] @
          (if prod_list (shape (table l)) mod 3 \<noteq> 0 then [Inl ValueError]
           else (case reshape_F [prod_list (shape (table l)) div 3, 3] (table l) of
                   Inl e \<Rightarrow> [Inl e]
                 | Inr tbl \<Rightarrow> row_actions P decimals tbl))
      | _ \<Rightarrow> [Inl IndexError])"

definition body :: "'f py_float \<Rightarrow> nat \<Rightarrow> 'f canonical \<Rightarrow> action list" where
  "body P decimals c =
     [Inr (''CSPLUTV100'' @ newline),
      Inr ((if has_3D c then ''3D'' else ''1D'') @ newline @ newline)] @
     metadata_actions c @
     (if has_3D c \<or> non_uniform c then
        (if has_3x1D c
         then concat (map (shaper_group P decimals (non_uniform c) (stage0 c)) [0 ..< 3])
         else concat (map (identity_group P decimals (stage1 c)) [0 ..< 3])) @
        (if non_uniform c then min_max_actions P decimals (stage0 c)
         else cube_actions P decimals (stage1 c))
      else
        concat (map (uniform_group P decimals (stage0 c)) [0 ..< 3]) @
        [bind (lut_size (stage0 c)) (\<lambda>n. Inr (newline @ str_nat n @ newline))] @
        row_actions P decimals (table (stage0 c)))"

text \<open>
  The writer returns its result, the object of the caller as the call leaves it, and the
  file system. The file is opened, and with that emptied, only after the checks.
\<close>

definition write_LUT_Cinespace ::
  "'f py_float \<Rightarrow> 'f pyobj \<Rightarrow> string \<Rightarrow> nat \<Rightarrow> (string \<Rightarrow> string option) \<Rightarrow>
   (error + bool) \<times> 'f pyobj \<times> (string \<Rightarrow> string option)" where
  "write_LUT_Cinespace P LUT path decimals fs =
     (case normalise P LUT of
        Inl e \<Rightarrow> (Inl e, LUT, fs)
      | Inr (c, LUT') \<Rightarrow>
          (case check_sizes c of
             Inl e \<Rightarrow> (Inl e, LUT', fs)
           | Inr _ \<Rightarrow>
               let (content, err) = run (body P decimals c) []
               in ((case err of None \<Rightarrow> Inr True | Some e \<Rightarrow> Inl e),
                   LUT', fs(path \<mapsto> content))))"

subsection \<open>Exact decimal scalars\<close>

text \<open>
  An instance of \<open>py_float\<close> in which a scalar is NaN or a rational number and the
  arithmetic is exact. \<open>dec_of_str\<close> reads the decimal literals of \<^verbatim>\<open>float()\<close> (an
  optional sign, digits, an optional point and digits) and \<^verbatim>\<open>nan\<close>; \<open>int_of_string\<close>
  reads an optional sign and digits; \<open>format_dec\<close> rounds half to even at the given
  number of decimals.
\<close>

datatype dec = NaN | Fin rat

definition digit_val :: "char \<Rightarrow> nat option" where
  "digit_val c =
     (let n = of_char c :: nat in if 48 \<le> n \<and> n \<le> 57 then Some (n - 48) else None)"

fun nat_of_digits :: "nat \<Rightarrow> string \<Rightarrow> nat option" where
  "nat_of_digits acc [] = Some acc"
| "nat_of_digits acc (c # cs) =
     (case digit_val c of None \<Rightarrow> None | Some v \<Rightarrow> nat_of_digits (10 * acc + v) cs)"

definition unsigned_of_str :: "string \<Rightarrow> rat option" where
  "unsigned_of_str s =
     (let ip = takeWhile (\<lambda>c. c \<noteq> CHR ''.'') s;
          fp = drop 1 (dropWhile (\<lambda>c. c \<noteq> CHR ''.'') s)
      in if ip = [] \<and> fp = [] then None
         else (case (nat_of_digits 0 ip, nat_of_digits 0 fp) of
                 (Some a, Some b) \<Rightarrow> Some (of_nat a + of_nat b / 10 ^ length fp)
               | _ \<Rightarrow> None))"

definition dec_of_str :: "string \<Rightarrow> dec option" where
  "dec_of_str s =
     (let t = strip s in
      if t = ''nan'' then Some NaN
      else (case t of
              [] \<Rightarrow> None
            | c # cs \<Rightarrow>
                if c = CHR ''-'' then map_option (\<lambda>r. Fin (- r)) (unsigned_of_str cs)
                else if c = CHR ''+'' then map_option Fin (unsigned_of_str cs)
                else map_option Fin (unsigned_of_str t)))"

definition int_of_string :: "string \<Rightarrow> int option" where
  "int_of_string s =
     (case strip s of
        [] \<Rightarrow> None
      | c # cs \<Rightarrow>
          if c = CHR ''-'' then (if cs = [] then None
                                 else map_option (\<lambda>n. - int n) (nat_of_digits 0 cs))
          else if c = CHR ''+'' then (if cs = [] then None
                                      else map_option int (nat_of_digits 0 cs))
          else map_option int (nat_of_digits 0 (c # cs)))"

definition round_half_even :: "rat \<Rightarrow> nat" where
  "round_half_even q =
     (let f = nat \<lfloor>q\<rfloor>; r = q - of_nat f
      in if r < 1 / 2 then f else if 1 / 2 < r then f + 1
         else if even f then f else f + 1)"

definition format_dec :: "nat \<Rightarrow> dec \<Rightarrow> string" where
  "format_dec d x =
     (case x of
        NaN \<Rightarrow> ''nan''
      | Fin r \<Rightarrow>
          let m = round_half_even (\<bar>r\<bar> * 10 ^ d);
              fp = str_nat (m mod 10 ^ d)
          in (if r < 0 then ''-'' else []) @ str_nat (m div 10 ^ d) @
             (if d = 0 then [] else ''.'' @ replicate (d - length fp) CHR ''0'' @ fp))"

fun dec_binop :: "(rat \<Rightarrow> rat \<Rightarrow> rat) \<Rightarrow> dec \<Rightarrow> dec \<Rightarrow> dec" where
  "dec_binop f (Fin a) (Fin b) = Fin (f a b)"
| "dec_binop f _ _ = NaN"

fun dec_div :: "dec \<Rightarrow> dec \<Rightarrow> dec" where
  "dec_div (Fin a) (Fin b) = (if b = 0 then NaN else Fin (a / b))"
| "dec_div _ _ = NaN"

fun dec_eq :: "dec \<Rightarrow> dec \<Rightarrow> bool" where
  "dec_eq (Fin a) (Fin b) = (a = b)"
| "dec_eq _ _ = False"

fun dec_select :: "(rat \<Rightarrow> rat \<Rightarrow> rat) \<Rightarrow> dec \<Rightarrow> dec \<Rightarrow> dec" where
  "dec_select f (Fin a) (Fin b) = Fin (f a b)"
| "dec_select f NaN b = b"
| "dec_select f a NaN = a"

definition dec_ops :: "dec py_float" where
  "dec_ops =
     \<lparr>fzero = Fin 0, fone = Fin 1, fnan = NaN,
      fisnan = (\<lambda>x. x = NaN), feq = dec_eq,
      fadd = dec_binop (+), fsub = dec_binop (-), fmul = dec_binop (*), fdiv = dec_div,
      fmin = dec_select min, fmax = dec_select max,
      of_int_f = (\<lambda>i. Fin (of_int i)),
      float_of_str = dec_of_str, int_of_str = int_of_string, format_f = format_dec\<rparr>"

subsection \<open>Example files\<close>

text \<open>
  Three small files and what the reader parses from them with exact decimal scalars,
  and the LUT that the first file reads to. The statements below are run on them.
\<close>

definition example_3D :: string where
  "example_3D = file_of_lines
     [''CSPLUTV100'', ''3D'', '''', ''BEGIN METADATA'', ''Cube'', ''a comment'',
      ''END METADATA'', '''',
      ''2'', ''-0.5 1.5'', ''0 1'', ''2'', ''0 1'', ''0.0 1.0'', ''2'', ''0 1'', ''0 1'', '''',
      ''2 1 2'', ''1 2 3'', ''4 5 6'', ''7 8 9'', ''10 11 12'']"


definition example_1D :: string where
  "example_1D = file_of_lines
     [''CSPLUTV100'', ''1D'', '''', ''BEGIN METADATA'', ''Shaper'', ''END METADATA'', '''',
      ''3'', ''0 0.5 1'', ''0 0.25 1'', ''3'', ''0 0.5 1'', ''0 0.5 1'',
      ''2'', ''0 1'', ''1 0'', '''',
      ''2'', ''0 1 2'', ''2 5 10'']"

definition parsed_3D :: "dec parsed" where
  "parsed_3D =
     \<lparr>is_3D = True, title = ''Cube'', file_comments = [''a comment''],
      pre_LUT = \<lparr>shape = [6, 2],
                 data = [Fin (- (1 / 2)), Fin (3 / 2), Fin 0, Fin 1, Fin 0, Fin 1,
                         Fin 0, Fin 1, Fin 0, Fin 1, Fin 0, Fin 1]\<rparr>,
      table_lines = [''2 1 2'', ''1 2 3'', ''4 5 6'', ''7 8 9'', ''10 11 12''],
      size_line = [2, 1, 2],
      file_table = \<lparr>shape = [4, 3],
                    data = [Fin 1, Fin 2, Fin 3, Fin 4, Fin 5, Fin 6, Fin 7, Fin 8,
                            Fin 9, Fin 10, Fin 11, Fin 12]\<rparr>\<rparr>"


definition parsed_1D :: "dec parsed" where
  "parsed_1D =
     \<lparr>is_3D = False, title = ''Shaper'', file_comments = [],
      pre_LUT = \<lparr>shape = [6, 3],
                 data = [Fin 0, Fin (1 / 2), Fin 1, Fin 0, Fin (1 / 4), Fin 1,
                         Fin 0, Fin (1 / 2), Fin 1, Fin 0, Fin (1 / 2), Fin 1,
                         Fin 0, Fin 1, NaN, Fin 1, Fin 0, NaN]\<rparr>,
      table_lines = [''2'', ''0 1 2'', ''2 5 10''],
      size_line = [2],
      file_table = \<lparr>shape = [2, 3],
                    data = [Fin 0, Fin 1, Fin 2, Fin 2, Fin 5, Fin 10]\<rparr>\<rparr>"

definition example_LUT3D :: "dec lut" where
  "example_LUT3D =
     \<lparr>table = \<lparr>shape = [2, 1, 2, 3],
                data = [Fin 1, Fin 2, Fin 3, Fin 7, Fin 8, Fin 9,
                        Fin 4, Fin 5, Fin 6, Fin 10, Fin 11, Fin 12]\<rparr>,
      name = ''Cube'',
      domain = \<lparr>shape = [2, 3],
                 data = [Fin (- (1 / 2)), Fin 0, Fin 0, Fin (3 / 2), Fin 1, Fin 1]\<rparr>,
      comments = [''a comment'']\<rparr>"

text \<open>
  LUT values for the writer: a uniform shaper, a shaper of one row, a shaper of 70000
  rows, a cube of size 300, and a shaper with an explicit domain whose third channel has
  one sample less than the others.
\<close>

definition example_LUT3x1D :: "dec lut" where
  "example_LUT3x1D =
     \<lparr>table = \<lparr>shape = [2, 3],
                data = [Fin 0, Fin (1 / 4), Fin (1 / 2), Fin (3 / 4), Fin 1, Fin (5 / 4)]\<rparr>,
      name = ''Ramp'',
      domain = \<lparr>shape = [2, 3], data = [Fin 0, Fin 0, Fin 0, Fin 1, Fin 1, Fin 2]\<rparr>,
      comments = [''first'', ''second'']\<rparr>"

definition example_small_shaper :: "dec lut" where
  "example_small_shaper =
     \<lparr>table = \<lparr>shape = [1, 3], data = [Fin 0, Fin 0, Fin 0]\<rparr>,
      name = ''Small'',
      domain = \<lparr>shape = [2, 3], data = [Fin 0, Fin 0, Fin 0, Fin 1, Fin 1, Fin 1]\<rparr>,
      comments = []\<rparr>"

definition example_large_shaper :: "dec lut" where
  "example_large_shaper =
     \<lparr>table = \<lparr>shape = [70000, 3], data = replicate 210000 (Fin 0)\<rparr>,
      name = ''Large'',
      domain = \<lparr>shape = [2, 3], data = [Fin 0, Fin 0, Fin 0, Fin 1, Fin 1, Fin 1]\<rparr>,
      comments = []\<rparr>"

definition example_large_cube :: "dec lut" where
  "example_large_cube =
     \<lparr>table = \<lparr>shape = [300, 1, 1, 3], data = replicate 900 (Fin 0)\<rparr>,
      name = ''Large'',
      domain = \<lparr>shape = [2, 3], data = [Fin 0, Fin 0, Fin 0, Fin 1, Fin 1, Fin 1]\<rparr>,
      comments = []\<rparr>"


section \<open>Properties\<close>

subsection \<open>Exceptions as values\<close>

lemma bind_Inr [simp]: "bind (Inr x) f = f x" by (simp add: bind_def)
lemma bind_Inl [simp]: "bind (Inl e) f = Inl e" by (simp add: bind_def)

subsection \<open>Positions in row-major and column-major order\<close>

lemma valid_index_length: "valid_index shp idx \<Longrightarrow> length idx = length shp"
  by (induction shp idx rule: valid_index.induct) auto

lemma f_index_less: "valid_index shp idx \<Longrightarrow> f_index shp idx < prod_list shp"
proof (induction shp idx rule: valid_index.induct)
  case (2 d ds i "is")
  then have i: "i < d" and r: "f_index ds is < prod_list ds" by auto
  have "i + d * f_index ds is < d + d * f_index ds is" using i by simp
  also have "\<dots> = d * (f_index ds is + 1)" by simp
  also have "\<dots> \<le> d * prod_list ds" using r by (intro mult_le_mono2) simp
  finally show ?case by simp
qed auto

lemma valid_unravel_F: "q < prod_list shp \<Longrightarrow> valid_index shp (unravel_F shp q)"
proof (induction shp arbitrary: q)
  case (Cons d ds)
  then have d: "0 < d" by (cases d) auto
  have "q div d < prod_list ds"
    using Cons.prems d by (simp add: less_mult_imp_div_less mult.commute)
  with Cons.IH d show ?case by simp
qed simp

lemma f_index_unravel_F: "q < prod_list shp \<Longrightarrow> f_index shp (unravel_F shp q) = q"
proof (induction shp arbitrary: q)
  case (Cons d ds)
  then have d: "0 < d" by (cases d) auto
  have "q div d < prod_list ds"
    using Cons.prems d by (simp add: less_mult_imp_div_less mult.commute)
  with Cons.IH show ?case by simp
qed simp

lemma unravel_F_f_index: "valid_index shp idx \<Longrightarrow> unravel_F shp (f_index shp idx) = idx"
  by (induction shp idx rule: valid_index.induct) auto

lemma f_index_snoc:
  "length idx = length shp \<Longrightarrow>
   f_index (shp @ [d]) (idx @ [i]) = f_index shp idx + prod_list shp * i"
proof (induction shp idx rule: f_index.induct)
  case (1 d ds i "is")
  then show ?case by (simp add: algebra_simps)
qed auto

lemma c_index_f_index_rev:
  "length idx = length shp \<Longrightarrow> c_index shp idx = f_index (rev shp) (rev idx)"
proof (induction shp idx rule: c_index.induct)
  case (1 d ds i "is")
  then show ?case by (simp add: f_index_snoc)
qed auto

lemma valid_index_snoc:
  "length idx = length shp \<Longrightarrow>
   valid_index (shp @ [d]) (idx @ [i]) = (valid_index shp idx \<and> i < d)"
  by (induction shp idx rule: valid_index.induct) auto

lemma valid_index_rev: "valid_index (rev shp) (rev idx) = valid_index shp idx"
proof (cases "length idx = length shp")
  case True
  then show ?thesis
  proof (induction shp idx rule: valid_index.induct)
    case (2 d ds i "is")
    then show ?case by (auto simp: valid_index_snoc)
  qed auto
next
  case False
  then show ?thesis
    using valid_index_length[of shp idx] valid_index_length[of "rev shp" "rev idx"] by auto
qed

lemma c_index_less: "valid_index shp idx \<Longrightarrow> c_index shp idx < prod_list shp"
  using f_index_less[of "rev shp" "rev idx"] valid_index_length[of shp idx]
  by (simp add: c_index_f_index_rev valid_index_rev)

text \<open>The position in row-major order of the multi-index at a column-major position.\<close>

lemma length_ravel_F [simp]: "length (ravel_F a) = prod_list (shape a)"
  by (simp add: ravel_F_def)

lemma ravel_F_nth:
  "q < prod_list (shape a) \<Longrightarrow>
   ravel_F a ! q = data a ! c_index (shape a) (unravel_F (shape a) q)"
  by (simp add: ravel_F_def)

lemma shape_transpose_nd [simp]: "shape (transpose_nd a) = rev (shape a)"
  by (simp add: transpose_nd_def)

lemma data_transpose_nd [simp]: "data (transpose_nd a) = ravel_F a"
  by (simp add: transpose_nd_def)

lemma transpose_nd_nth:
  assumes "valid_index (shape a) idx"
  shows "data (transpose_nd a) ! f_index (shape a) idx = data a ! c_index (shape a) idx"
  using assms by (simp add: ravel_F_nth f_index_less unravel_F_f_index)

lemma transpose_nd_involution:
  assumes "wf_array a"
  shows "transpose_nd (transpose_nd a) = (a :: 'a ndarray)"
proof -
  let ?s = "shape a"
  have len: "length (data a) = prod_list ?s" using assms by (simp add: wf_array_def)
  have "ravel_F (transpose_nd a) = data a"
  proof (rule nth_equalityI)
    show "length (ravel_F (transpose_nd a)) = length (data a)" by (simp add: len)
  next
    fix q assume "q < length (ravel_F (transpose_nd a))"
    then have q: "q < prod_list (rev ?s)" by simp
    let ?idx = "unravel_F (rev ?s) q"
    have v: "valid_index (rev ?s) ?idx" using q by (rule valid_unravel_F)
    then have l: "length ?idx = length ?s" using valid_index_length by fastforce
    have v': "valid_index ?s (rev ?idx)" using v valid_index_rev[of ?s "rev ?idx"] by simp
    have "ravel_F (transpose_nd a) ! q = ravel_F a ! c_index (rev ?s) ?idx"
      using q by (simp add: ravel_F_nth)
    also have "c_index (rev ?s) ?idx = f_index ?s (rev ?idx)"
      using l by (simp add: c_index_f_index_rev)
    also have "ravel_F a ! f_index ?s (rev ?idx) = data a ! c_index ?s (rev ?idx)"
      using transpose_nd_nth[OF v'] by simp
    also have "c_index ?s (rev ?idx) = f_index (rev ?s) ?idx"
      using l by (simp add: c_index_f_index_rev)
    also have "\<dots> = q" using q by (rule f_index_unravel_F)
    finally show "ravel_F (transpose_nd a) ! q = data a ! q" .
  qed
  then show ?thesis by (simp add: transpose_nd_def)
qed

lemma wf_transpose_nd [simp]: "wf_array (transpose_nd a)"
  by (simp add: wf_array_def)

lemma reshape_F_eq:
  "reshape_F shp a =
     (if prod_list shp = prod_list (shape a)
      then Inr (transpose_nd \<lparr>shape = rev shp, data = ravel_F a\<rparr>) else Inl ValueError)"
  by (simp add: reshape_F_def reshape_def)

lemma reshape_F_nth:
  assumes "reshape_F shp a = Inr r" and "valid_index shp idx"
  shows "shape r = shp"
    and "data r ! c_index shp idx
         = data a ! c_index (shape a) (unravel_F (shape a) (f_index shp idx))"
proof -
  have p: "prod_list shp = prod_list (shape a)"
    and r: "r = transpose_nd \<lparr>shape = rev shp, data = ravel_F a\<rparr>"
    using assms(1) by (auto simp: reshape_F_eq split: if_splits)
  show "shape r = shp" by (simp add: r)
  let ?b = "\<lparr>shape = rev shp, data = ravel_F a\<rparr>"
  have l: "length idx = length shp" using assms(2) by (rule valid_index_length)
  have v: "valid_index (shape ?b) (rev idx)" using assms(2) by (simp add: valid_index_rev)
  have "data r ! c_index shp idx = data (transpose_nd ?b) ! f_index (shape ?b) (rev idx)"
    using l by (simp add: r c_index_f_index_rev)
  also have "\<dots> = data ?b ! c_index (shape ?b) (rev idx)"
    using v by (rule transpose_nd_nth)
  also have "\<dots> = ravel_F a ! f_index shp idx"
    using l c_index_f_index_rev[of "rev idx" "rev shp"] by simp
  also have "\<dots> = data a ! c_index (shape a) (unravel_F (shape a) (f_index shp idx))"
    using f_index_less[OF assms(2)] p by (simp add: ravel_F_nth)
  finally show "data r ! c_index shp idx
         = data a ! c_index (shape a) (unravel_F (shape a) (f_index shp idx))" .
qed

lemma reshape_F_inverse:
  assumes "wf_array a" and "prod_list shp = prod_list (shape a)"
  shows "bind (reshape_F shp a) (reshape_F (shape a)) = Inr a"
proof -
  let ?b = "\<lparr>shape = rev shp, data = ravel_F a\<rparr>"
  have wb: "wf_array ?b" using assms(2) by (simp add: wf_array_def)
  have "ravel_F (transpose_nd ?b) = data ?b"
    using transpose_nd_involution[OF wb] by (simp add: transpose_nd_def)
  then have "transpose_nd \<lparr>shape = rev (shape a), data = ravel_F (transpose_nd ?b)\<rparr>
             = transpose_nd (transpose_nd a)"
    by (simp add: transpose_nd_def)
  then show ?thesis
    using assms by (simp add: reshape_F_eq transpose_nd_involution)
qed

subsection \<open>Results of the parsing functions\<close>

lemma bind_eq_Inr: "bind m f = Inr y \<longleftrightarrow> (\<exists>x. m = Inr x \<and> f x = Inr y)"
  by (cases m) auto

lemma bind_eq_Inl: "bind m f = Inl e \<longleftrightarrow> (m = Inl e \<or> (\<exists>x. m = Inr x \<and> f x = Inl e))"
  by (cases m) auto

lemma of_option_eq_Inr [simp]: "of_option e m = Inr x \<longleftrightarrow> m = Some x"
  by (cases m) (auto simp: of_option_def)

lemma of_option_eq_Inl [simp]: "of_option e m = Inl e' \<longleftrightarrow> (m = None \<and> e' = e)"
  by (cases m) (auto simp: of_option_def)


lemma index_eq_Inl: "index xs i = Inl e \<longleftrightarrow> (\<not> i < length xs \<and> e = IndexError)"
  by (auto simp: index_def)

lemma mapM_Inr:
  "mapM f xs = Inr ys \<Longrightarrow> length ys = length xs \<and> (\<forall>i < length xs. f (xs ! i) = Inr (ys ! i))"
proof (induction xs arbitrary: ys)
  case (Cons x xs)
  then obtain y ys' where y: "f x = Inr y" and ys': "mapM f xs = Inr ys'" and e: "ys = y # ys'"
    by (auto simp: bind_eq_Inr)
  from Cons.IH[OF ys'] y e show ?case by (auto simp: nth_Cons split: nat.splits)
qed simp

lemma mapM_Inl: "mapM f xs = Inl e \<Longrightarrow> \<exists>x \<in> set xs. f x = Inl e"
  by (induction xs) (auto simp: bind_eq_Inl)

lemma mapM_all_Inr:
  "(\<And>x. x \<in> set xs \<Longrightarrow> f x = Inr (g x)) \<Longrightarrow> mapM f xs = Inr (map g xs)"
  by (induction xs) auto

lemma length_concat_const:
  "(\<And>r. r \<in> set rows \<Longrightarrow> length r = n) \<Longrightarrow> length (concat rows) = length rows * n"
  by (induction rows) auto

lemma nth_concat_const:
  "(\<And>r. r \<in> set rows \<Longrightarrow> length r = n) \<Longrightarrow> i < length rows \<Longrightarrow> j < n \<Longrightarrow>
   concat rows ! (i * n + j) = rows ! i ! j"
proof (induction rows arbitrary: i)
  case (Cons r rows)
  show ?case
  proof (cases i)
    case 0
    then show ?thesis using Cons.prems by (simp add: nth_append)
  next
    case (Suc i')
    then show ?thesis using Cons.prems Cons.IH[of i'] by (simp add: nth_append)
  qed
qed simp

lemma array2_Nil: "array2 [] = Inr a \<longleftrightarrow> a = \<lparr>shape = [0], data = []\<rparr>"
  by (auto simp: array2_def)

lemma array2_shape:
  "array2 rows = Inr a \<Longrightarrow> rows \<noteq> [] \<Longrightarrow>
   shape a = [length rows, length (hd rows)] \<and> data a = concat rows"
  by (cases rows) (auto simp: array2_def split: if_splits)

lemma array2_row_length:
  "array2 rows = Inr a \<Longrightarrow> r \<in> set rows \<Longrightarrow> length r = length (hd rows)"
  by (cases rows) (auto simp: array2_def list_all_iff split: if_splits)

lemma array2_Inl: "array2 rows = Inl e \<Longrightarrow> e = ValueError"
  by (cases rows) (auto simp: array2_def split: if_splits)

lemma array2_wf:
  assumes "array2 rows = Inr a"
  shows "wf_array a"
proof (cases "rows = []")
  case True
  with assms show ?thesis by (simp add: array2_Nil wf_array_def)
next
  case False
  have "length (concat rows) = length rows * length (hd rows)"
    by (rule length_concat_const) (rule array2_row_length[OF assms])
  with array2_shape[OF assms False] show ?thesis by (simp add: wf_array_def)
qed

lemma pad_Inr: "pad P row w = Inr r \<longleftrightarrow> (0 \<le> w \<and> r = row @ replicate (nat w) (fnan P))"
  by (auto simp: pad_def)

lemma parse_domain_section_shape:
  assumes "parse_domain_section P ls = Inr a"
  shows "\<exists>N. shape a = [6, N] \<and> wf_array a"
proof -
  from assms obtain sizes rows padded where
    rows: "mapM (\<lambda>i. bind (index ls i) (\<lambda>l. floats_of_tokens P (split l))) [1, 2, 4, 5, 7, 8]
           = Inr rows"
    and padded: "mapM (\<lambda>row. if int (length row) \<noteq> foldl max (hd sizes) (tl sizes)
                              then pad P row (foldl max (hd sizes) (tl sizes) - int (length row))
                              else Inr row) rows = Inr padded"
    and a: "array2 padded = Inr a"
    unfolding parse_domain_section_def Let_def bind_eq_Inr by blast
  let ?S = "foldl max (hd sizes) (tl sizes)"
  have lr: "length rows = 6" using mapM_Inr[OF rows] by simp
  have lp: "length padded = 6" using mapM_Inr[OF padded] lr by simp
  have each: "length r = nat ?S" if "r \<in> set padded" for r
  proof -
    from that obtain i where i: "i < length rows" and r: "r = padded ! i"
      using mapM_Inr[OF padded] by (metis in_set_conv_nth)
    have "(if int (length (rows ! i)) \<noteq> ?S
           then pad P (rows ! i) (?S - int (length (rows ! i)))
           else Inr (rows ! i)) = Inr r"
      using mapM_Inr[OF padded] i r by simp
    then show ?thesis by (auto simp: pad_Inr split: if_splits)
  qed
  have ne: "padded \<noteq> []" using lp by auto
  then have hd: "length (hd padded) = nat ?S" using each by simp
  from array2_shape[OF a ne] have "shape a = [6, nat ?S]" by (simp add: lp hd)
  with array2_wf[OF a] show ?thesis by blast
qed

lemma parse_table_section_shape:
  assumes "parse_table_section P ls = Inr (sz, t)"
  shows "wf_array t \<and> (shape t = [0] \<or> (\<exists>M K. 0 < M \<and> shape t = [M, K]))
         \<and> len t = Inr (length ls - 1)"
proof -
  from assms obtain rows where
    rows: "mapM (\<lambda>line. floats_of_tokens P (split line)) (tl ls) = Inr rows"
    and t: "array2 rows = Inr t"
    unfolding parse_table_section_def bind_eq_Inr by (elim exE conjE) simp
  have l: "length rows = length ls - 1" using mapM_Inr[OF rows] by simp
  show ?thesis
  proof (cases "rows = []")
    case True
    then show ?thesis using t array2_wf[OF t] l by (simp add: array2_Nil len_def)
  next
    case False
    then have s: "shape t = [length rows, length (hd rows)]" and "0 < length rows"
      using array2_shape[OF t] by simp_all
    then show ?thesis using array2_wf[OF t] l by (simp add: len_def)
  qed
qed

lemma parse_file_Inr:
  assumes "parse_file P content = Inr p"
  shows "(\<exists>N. shape (pre_LUT p) = [6, N]) \<and> wf_array (pre_LUT p) \<and> wf_array (file_table p)
         \<and> (shape (file_table p) = [0] \<or> (\<exists>M K. 0 < M \<and> shape (file_table p) = [M, K]))
         \<and> parse_table_section P (table_lines p) = Inr (size_line p, file_table p)"
proof -
  from assms obtain ls1 where
    pre: "parse_domain_section P ls1 = Inr (pre_LUT p)"
    and tbl: "parse_table_section P (table_lines p) = Inr (size_line p, file_table p)"
    unfolding parse_file_def Let_def
    by (auto simp: bind_eq_Inr split: if_splits prod.splits)
  show ?thesis
    using parse_domain_section_shape[OF pre] parse_table_section_shape[OF tbl] tbl by auto
qed

subsection \<open>The collapsing test and the columns of the shaper\<close>

lemma upt_12: "[0..<12] = [0,1,2,3,4,5,6,7,8,9,10,11::nat]"
  by code_simp

lemma ravel_F_3_4:
  "shape a = [3, 4] \<Longrightarrow>
   ravel_F a = map (\<lambda>k. data a ! k) [0, 4, 8, 1, 5, 9, 2, 6, 10, 3, 7, 11]"
  by (simp add: ravel_F_def upt_12) (simp add: numeral_2_eq_2 numeral_3_eq_3)

lemma is_unity_shaper_6_2:
  assumes "shape a = [6, 2]" and "wf_array a"
  shows "is_unity_shaper P a =
         Inr (feq P (data a ! 2) (fzero P) \<and> feq P (data a ! 6) (fzero P) \<and>
              feq P (data a ! 10) (fzero P) \<and> feq P (data a ! 3) (fone P) \<and>
              feq P (data a ! 7) (fone P) \<and> feq P (data a ! 11) (fone P))"
  using assms
  by (simp add: is_unity_shaper_def reshape_def slice_rows_def ravel_F_3_4 array_equal_def
      unity_range_def)

lemma is_unity_shaper_other: "shape a \<noteq> [6, 2] \<Longrightarrow> is_unity_shaper P a = Inr False"
  by (simp add: is_unity_shaper_def)

lemma collapsed_domain_6_2:
  assumes "shape a = [6, 2]" and "wf_array a"
  shows "collapsed_domain a =
         Inr \<lparr>shape = [2, 3],
              data = [data a ! 0, data a ! 4, data a ! 8, data a ! 1, data a ! 5, data a ! 9]\<rparr>"
  using assms
  by (simp add: collapsed_domain_def reshape_def slice_rows_def ravel_F_3_4)

lemma length_concat_triples [simp]:
  "length (concat (map (\<lambda>j. [f j, g j, h j]) [0 ..< n])) = 3 * n"
  by (induction n) auto

lemma nth_concat_triples:
  "j < n \<Longrightarrow> c < 3 \<Longrightarrow>
   concat (map (\<lambda>j. [f j, g j, h j]) [0 ..< n]) ! (3 * j + c) = [f j, g j, h j] ! c"
proof (induction n)
  case (Suc n)
  show ?case
  proof (cases "j < n")
    case True
    then show ?thesis using Suc by (simp add: nth_append)
  next
    case False
    then have "j = n" using Suc.prems by simp
    then show ?thesis using Suc.prems by (simp add: nth_append)
  qed
qed simp

lemma getrow_matrix:
  "shape a = [m, n] \<Longrightarrow> i < m \<Longrightarrow>
   getrow a i = Inr \<lparr>shape = [n], data = take n (drop (i * n) (data a))\<rparr>"
  by (simp add: getrow_def)

lemma tstack_rows_matrix:
  assumes "shape a = [m, n]" and "wf_array a" and "x < m" and "y < m" and "z < m"
  shows "\<exists>t. tstack_rows a x y z = Inr t \<and> shape t = [n, 3] \<and> wf_array t \<and>
             (\<forall>j < n. data t ! (3 * j) = data a ! (x * n + j) \<and>
                       data t ! (3 * j + 1) = data a ! (y * n + j) \<and>
                       data t ! (3 * j + 2) = data a ! (z * n + j))"
proof -
  have len: "length (data a) = m * n" using assms by (simp add: wf_array_def)
  have row: "take n (drop (i * n) (data a)) ! j = data a ! (i * n + j)" if "i < m" "j < n" for i j
  proof -
    have "i * n + j < m * n"
    proof -
      have "i * n + j < i * n + n" using that by simp
      also have "\<dots> = (i + 1) * n" by simp
      also have "\<dots> \<le> m * n" using that by (intro mult_le_mono1) simp
      finally show ?thesis .
    qed
    then show ?thesis using that len by simp
  qed
  let ?t = "\<lparr>shape = [n, 3],
            data = concat (map (\<lambda>j. [take n (drop (x * n) (data a)) ! j,
                                      take n (drop (y * n) (data a)) ! j,
                                      take n (drop (z * n) (data a)) ! j]) [0 ..< n])\<rparr>"
  have t: "tstack_rows a x y z = Inr ?t"
    using assms by (simp add: tstack_rows_def getrow_matrix tstack_def)
  have el: "data ?t ! (3 * j + c) =
            [data a ! (x * n + j), data a ! (y * n + j), data a ! (z * n + j)] ! c"
    if "j < n" "c < 3" for j c
    using that assms row by (simp add: nth_concat_triples)
  have "\<forall>j < n. data ?t ! (3 * j) = data a ! (x * n + j) \<and>
                 data ?t ! (3 * j + 1) = data a ! (y * n + j) \<and>
                 data ?t ! (3 * j + 2) = data a ! (z * n + j)"
    using el[of _ 0] el[of _ 1] el[of _ 2] by simp
  moreover have "wf_array ?t" by (simp add: wf_array_def)
  ultimately show ?thesis using t by (intro exI[of _ ?t]) simp
qed

subsection \<open>Exceptions of the assembling branches\<close>


lemma reshape_F_Inl: "reshape_F shp a = Inl e \<Longrightarrow> e = ValueError"
  by (auto simp: reshape_F_eq split: if_splits)









lemma read_LUT_Cinespace_parsed:
  assumes "fs path = Some content" and "parse_file P content = Inr p"
  shows "read_LUT_Cinespace P fs path =
         (if prod_list (size_line p) \<noteq> int (length (tl (table_lines p)))
          then Inl TableSizeMismatchError else assemble P p)"
proof -
  have "len (file_table p) = Inr (length (table_lines p) - 1)"
    using parse_file_Inr[OF assms(2)] parse_table_section_shape by blast
  then show ?thesis using assms by (simp add: read_LUT_Cinespace_def)
qed


lemma is_unity_shaper_eq:
  assumes "wf_array a"
  shows "is_unity_shaper P a = Inr (table_samples_unity P a)"
proof (cases "shape a = [6, 2]")
  case True
  then show ?thesis
    using is_unity_shaper_6_2[OF True assms, of P] by (auto simp: table_samples_unity_def)
next
  case False
  then show ?thesis by (simp add: is_unity_shaper_other table_samples_unity_def)
qed

lemma reshape_F_shape: "reshape_F shp a = Inr r \<Longrightarrow> shape r = shp"
  by (auto simp: reshape_F_eq split: if_splits)

lemma item_valid:
  "valid_index (shape a) idx \<Longrightarrow> item a idx = Inr (data a ! c_index (shape a) idx)"
  using valid_index_length[of "shape a" idx] by (simp add: item_def)

lemma column_major_position:
  assumes "k < Nx * Ny * Nz" and "c < 3"
  shows "valid_index [Nx, Ny, Nz, 3] [k mod Nx, (k div Nx) mod Ny, k div (Nx * Ny), c]"
    and "f_index [Nx, Ny, Nz, 3] [k mod Nx, (k div Nx) mod Ny, k div (Nx * Ny), c]
         = k + Nx * Ny * Nz * c"
proof -
  have pos: "0 < Nx" "0 < Ny" "0 < Nz" using assms(1) by (cases Nx; cases Ny; cases Nz; simp)+
  have "k div (Nx * Ny) < Nz"
    using assms(1) pos by (simp add: less_mult_imp_div_less mult.commute)
  then show "valid_index [Nx, Ny, Nz, 3] [k mod Nx, (k div Nx) mod Ny, k div (Nx * Ny), c]"
    using pos assms(2) by simp
  have "k mod Nx + Nx * ((k div Nx) mod Ny + Ny * (k div Nx div Ny)) = k"
    by simp
  then have "k mod Nx + Nx * ((k div Nx) mod Ny + Ny * (k div (Nx * Ny))) = k"
    by (simp add: div_mult2_eq)
  then show "f_index [Nx, Ny, Nz, 3] [k mod Nx, (k div Nx) mod Ny, k div (Nx * Ny), c]
         = k + Nx * Ny * Nz * c"
    by (simp add: algebra_simps)
qed

lemma reshape_table_column_major:
  assumes "shape t = [Nx * Ny * Nz, 3]"
  shows "\<exists>r. reshape_table [int Nx, int Ny, int Nz] t = Inr r \<and> shape r = [Nx, Ny, Nz, 3] \<and>
             (\<forall>k < Nx * Ny * Nz. \<forall>c < 3.
                item r [k mod Nx, (k div Nx) mod Ny, k div (Nx * Ny), c] = item t [k, c])"
proof -
  let ?shp = "[Nx, Ny, Nz, 3]"
  obtain r where r: "reshape_F ?shp t = Inr r"
    using assms by (simp add: reshape_F_eq)
  have rt: "reshape_table [int Nx, int Ny, int Nz] t = Inr r"
    using r by (simp add: reshape_table_def index_def)
  have "item r [k mod Nx, (k div Nx) mod Ny, k div (Nx * Ny), c] = item t [k, c]"
    if k: "k < Nx * Ny * Nz" and c: "c < 3" for k c
  proof -
    let ?idx = "[k mod Nx, (k div Nx) mod Ny, k div (Nx * Ny), c]"
    note v = column_major_position[OF k c]
    have v2: "valid_index [Nx * Ny * Nz, 3] [k, c]" using k c by simp
    have "unravel_F [Nx * Ny * Nz, 3] (f_index [Nx * Ny * Nz, 3] [k, c]) = [k, c]"
      using v2 by (rule unravel_F_f_index)
    then have u: "unravel_F (shape t) (f_index ?shp ?idx) = [k, c]"
      using v(2) assms by simp
    have "data r ! c_index ?shp ?idx = data t ! c_index (shape t) [k, c]"
      using reshape_F_nth(2)[OF r v(1)] u by simp
    then show ?thesis
      using reshape_F_nth(1)[OF r v(1)] v(1) v2 assms by (simp add: item_valid)
  qed
  then show ?thesis using rt reshape_F_shape[OF r] by simp
qed

lemma parsed_shaper_columns:
  assumes "parse_file P content = Inr p"
  shows "\<exists>N sd st. shape (pre_LUT p) = [6, N] \<and>
           tstack_rows (pre_LUT p) 0 2 4 = Inr sd \<and> tstack_rows (pre_LUT p) 1 3 5 = Inr st \<and>
           shape sd = [N, 3] \<and> shape st = [N, 3] \<and> wf_array sd \<and> wf_array st \<and>
           (\<forall>j < N. \<forall>c < 3. data sd ! (3 * j + c) = data (pre_LUT p) ! (2 * c * N + j) \<and>
                              data st ! (3 * j + c) = data (pre_LUT p) ! ((2 * c + 1) * N + j))"
proof -
  obtain N where N: "shape (pre_LUT p) = [6, N]" and wf: "wf_array (pre_LUT p)"
    using parse_file_Inr[OF assms] by blast
  obtain sd where sd: "tstack_rows (pre_LUT p) 0 2 4 = Inr sd" "shape sd = [N, 3]" "wf_array sd"
    and sde: "\<forall>j < N. data sd ! (3 * j) = data (pre_LUT p) ! (0 * N + j) \<and>
                       data sd ! (3 * j + 1) = data (pre_LUT p) ! (2 * N + j) \<and>
                       data sd ! (3 * j + 2) = data (pre_LUT p) ! (4 * N + j)"
    using tstack_rows_matrix[OF N wf, of 0 2 4] by auto
  obtain st where st: "tstack_rows (pre_LUT p) 1 3 5 = Inr st" "shape st = [N, 3]" "wf_array st"
    and ste: "\<forall>j < N. data st ! (3 * j) = data (pre_LUT p) ! (1 * N + j) \<and>
                       data st ! (3 * j + 1) = data (pre_LUT p) ! (3 * N + j) \<and>
                       data st ! (3 * j + 2) = data (pre_LUT p) ! (5 * N + j)"
    using tstack_rows_matrix[OF N wf, of 1 3 5] by auto
  have "data sd ! (3 * j + c) = data (pre_LUT p) ! (2 * c * N + j) \<and>
        data st ! (3 * j + c) = data (pre_LUT p) ! ((2 * c + 1) * N + j)"
    if "j < N" "c < 3" for j c
  proof -
    from that(2) consider "c = 0" | "c = 1" | "c = 2" by linarith
    then show ?thesis using sde ste that(1) by cases simp_all
  qed
  then show ?thesis using N sd st by blast
qed

lemma assemble_parsed:
  assumes p: "parse_file P content = Inr p"
  shows "(table_samples_unity P (pre_LUT p) \<and> is_3D p \<longrightarrow>
            assemble P p =
              bind (reshape_table (size_line p) (file_table p)) (\<lambda>t.
                Inr (LUT3D \<lparr>table = t, name = title p,
                       domain = \<lparr>shape = [2, 3],
                                  data = map (\<lambda>k. data (pre_LUT p) ! k) [0, 4, 8, 1, 5, 9]\<rparr>,
                       comments = file_comments p\<rparr>))) \<and>
         (table_samples_unity P (pre_LUT p) \<and> \<not> is_3D p \<longrightarrow>
            assemble P p =
              Inr (LUT3x1D \<lparr>table = file_table p, name = title p,
                     domain = \<lparr>shape = [2, 3],
                                data = map (\<lambda>k. data (pre_LUT p) ! k) [0, 4, 8, 1, 5, 9]\<rparr>,
                     comments = file_comments p\<rparr>)) \<and>
         (\<not> table_samples_unity P (pre_LUT p) \<longrightarrow>
            (\<exists>sd st. tstack_rows (pre_LUT p) 0 2 4 = Inr sd \<and>
                     tstack_rows (pre_LUT p) 1 3 5 = Inr st \<and>
               assemble P p =
                 (if is_3D p then
                    bind (reshape_table (size_line p) (file_table p)) (\<lambda>t.
                      Inr (LUTSequence
                        [LUT3x1D \<lparr>table = st, name = title p @ '' - Shaper'', domain = sd,
                                  comments = []\<rparr>,
                         LUT3D \<lparr>table = t, name = title p @ '' - Cube'',
                                domain = unity_range P, comments = file_comments p\<rparr>]))
                  else if shape (file_table p) = [2, 3] then
                    Inr (LUT3x1D \<lparr>table = rescale P st (take 3 (data (file_table p)))
                                             (take 3 (drop 3 (data (file_table p)))),
                           name = title p, domain = sd, comments = file_comments p\<rparr>)
                  else
                    Inr (LUTSequence
                      [LUT3x1D \<lparr>table = st, name = title p @ '' - PreLUT'', domain = sd,
                                comments = []\<rparr>,
                       LUT3x1D \<lparr>table = file_table p, name = title p @ '' - Table'',
                                domain = unity_range P, comments = file_comments p\<rparr>]))))"
proof -
  have wf: "wf_array (pre_LUT p)" using parse_file_Inr[OF p] by simp
  note u = is_unity_shaper_eq[OF wf, of P]
  obtain sd st where cols: "tstack_rows (pre_LUT p) 0 2 4 = Inr sd"
    "tstack_rows (pre_LUT p) 1 3 5 = Inr st"
    using parsed_shaper_columns[OF p] by blast
  have dom: "collapsed_domain (pre_LUT p) =
             Inr \<lparr>shape = [2, 3], data = map (\<lambda>k. data (pre_LUT p) ! k) [0, 4, 8, 1, 5, 9]\<rparr>"
    if "table_samples_unity P (pre_LUT p)"
    using that collapsed_domain_6_2[OF _ wf] by (simp add: table_samples_unity_def)
  have a: "table_samples_unity P (pre_LUT p) \<and> is_3D p \<longrightarrow>
            assemble P p =
              bind (reshape_table (size_line p) (file_table p)) (\<lambda>t.
                Inr (LUT3D \<lparr>table = t, name = title p,
                       domain = \<lparr>shape = [2, 3],
                                  data = map (\<lambda>k. data (pre_LUT p) ! k) [0, 4, 8, 1, 5, 9]\<rparr>,
                       comments = file_comments p\<rparr>))"
    using dom by (simp add: assemble_def u mk_lut_def)
  have b: "table_samples_unity P (pre_LUT p) \<and> \<not> is_3D p \<longrightarrow>
            assemble P p =
              Inr (LUT3x1D \<lparr>table = file_table p, name = title p,
                     domain = \<lparr>shape = [2, 3],
                                data = map (\<lambda>k. data (pre_LUT p) ! k) [0, 4, 8, 1, 5, 9]\<rparr>,
                     comments = file_comments p\<rparr>)"
    using dom by (simp add: assemble_def u mk_lut_def)
  have rows: "getrow (file_table p) 1 =
                Inr \<lparr>shape = [3], data = take 3 (drop 3 (data (file_table p)))\<rparr>"
             "getrow (file_table p) 0 = Inr \<lparr>shape = [3], data = take 3 (data (file_table p))\<rparr>"
    if "shape (file_table p) = [2, 3]"
    using that by (simp_all add: getrow_def)
  have c: "\<not> table_samples_unity P (pre_LUT p) \<longrightarrow>
     assemble P p =
                 (if is_3D p then
                    bind (reshape_table (size_line p) (file_table p)) (\<lambda>t.
                      Inr (LUTSequence
                        [LUT3x1D \<lparr>table = st, name = title p @ '' - Shaper'', domain = sd,
                                  comments = []\<rparr>,
                         LUT3D \<lparr>table = t, name = title p @ '' - Cube'',
                                domain = unity_range P, comments = file_comments p\<rparr>]))
                  else if shape (file_table p) = [2, 3] then
                    Inr (LUT3x1D \<lparr>table = rescale P st (take 3 (data (file_table p)))
                                             (take 3 (drop 3 (data (file_table p)))),
                           name = title p, domain = sd, comments = file_comments p\<rparr>)
                  else
                    Inr (LUTSequence
                      [LUT3x1D \<lparr>table = st, name = title p @ '' - PreLUT'', domain = sd,
                                comments = []\<rparr>,
                       LUT3x1D \<lparr>table = file_table p, name = title p @ '' - Table'',
                                domain = unity_range P, comments = file_comments p\<rparr>]))"
    using rows cols by (simp add: assemble_def u mk_lut_def)
  show ?thesis
    using a b c cols by blast
qed

lemma parsed_table_rows:
  assumes "parse_file P content = Inr p" and "shape (file_table p) = n # ds"
  shows "length (tl (table_lines p)) = n"
proof -
  have "len (file_table p) = Inr (length (table_lines p) - 1)"
    using parse_file_Inr[OF assms(1)] parse_table_section_shape by blast
  then show ?thesis using assms(2) by (simp add: len_def)
qed

lemma read_3D_column_major:
  assumes fs: "fs path = Some content" and p: "parse_file P content = Inr p"
    and k3: "is_3D p" and sz: "size_line p = [int Nx, int Ny, int Nz]"
    and sh: "shape (file_table p) = [Nx * Ny * Nz, 3]"
  shows "\<exists>l. (read_LUT_Cinespace P fs path = Inr (LUT3D l) \<or>
              (\<exists>a. read_LUT_Cinespace P fs path = Inr (LUTSequence [LUT3x1D a, LUT3D l]))) \<and>
             shape (table l) = [Nx, Ny, Nz, 3] \<and>
             (\<forall>k < Nx * Ny * Nz. \<forall>c < 3.
                item (table l) [k mod Nx, (k div Nx) mod Ny, k div (Nx * Ny), c]
                  = item (file_table p) [k, c])"
proof -
  have "prod_list (size_line p) = int (length (tl (table_lines p)))"
    using parsed_table_rows[OF p sh] sz by simp
  then have rd: "read_LUT_Cinespace P fs path = assemble P p"
    using read_LUT_Cinespace_parsed[of fs path content P p] fs p by simp
  obtain r where r: "reshape_table (size_line p) (file_table p) = Inr r"
    "shape r = [Nx, Ny, Nz, 3]"
    "\<forall>k < Nx * Ny * Nz. \<forall>c < 3.
       item r [k mod Nx, (k div Nx) mod Ny, k div (Nx * Ny), c] = item (file_table p) [k, c]"
    using reshape_table_column_major[OF sh] sz by auto
  show ?thesis
  proof (cases "table_samples_unity P (pre_LUT p)")
    case True
    then have "assemble P p = Inr (LUT3D \<lparr>table = r, name = title p,
                       domain = \<lparr>shape = [2, 3],
                                  data = map (\<lambda>k. data (pre_LUT p) ! k) [0, 4, 8, 1, 5, 9]\<rparr>,
                       comments = file_comments p\<rparr>)"
      using assemble_parsed[OF p] k3 r(1) by simp
    then show ?thesis unfolding rd using r(2,3)
      by (intro exI[of _ "\<lparr>table = r, name = title p,
                       domain = \<lparr>shape = [2, 3],
                                  data = map (\<lambda>k. data (pre_LUT p) ! k) [0, 4, 8, 1, 5, 9]\<rparr>,
                       comments = file_comments p\<rparr>"]) simp
  next
    case False
    then obtain sd st where "assemble P p = Inr (LUTSequence
                        [LUT3x1D \<lparr>table = st, name = title p @ '' - Shaper'', domain = sd,
                                  comments = []\<rparr>,
                         LUT3D \<lparr>table = r, name = title p @ '' - Cube'',
                                domain = unity_range P, comments = file_comments p\<rparr>])"
      using assemble_parsed[OF p] k3 r(1) by auto
    then show ?thesis unfolding rd using r(2,3)
      by (intro exI[of _ "\<lparr>table = r, name = title p @ '' - Cube'',
                                domain = unity_range P, comments = file_comments p\<rparr>"]) simp
  qed
qed

lemma rescale_nth:
  assumes "shape t = [N, 3]" and "wf_array t" and "j < N" and "c < 3"
  shows "shape (rescale P t mn mx) = [N, 3]"
    and "data (rescale P t mn mx) ! (3 * j + c)
         = fadd P (fmul P (data t ! (3 * j + c)) (fsub P (mx ! c) (mn ! c))) (mn ! c)"
proof -
  have "3 * j + c < length (data t)" using assms by (simp add: wf_array_def)
  moreover have "(3 * j + c) mod 3 = c" using assms(4) by simp
  ultimately show "data (rescale P t mn mx) ! (3 * j + c)
         = fadd P (fmul P (data t ! (3 * j + c)) (fsub P (mx ! c) (mn ! c))) (mn ! c)"
    by (simp add: rescale_def)
  show "shape (rescale P t mn mx) = [N, 3]" using assms(1) by (simp add: rescale_def)
qed

lemma item_matrix:
  "shape t = [N, 3] \<Longrightarrow> j < N \<Longrightarrow> c < 3 \<Longrightarrow> item t [j, c] = Inr (data t ! (3 * j + c))"
  by (simp add: item_valid mult.commute)


subsection \<open>What the writer writes\<close>

lemma run_Inr: "run (map Inr ss) acc = (acc @ concat ss, None)"
  by (induction ss arbitrary: acc) auto

lemma run_append:
  "run (as @ bs) acc = (case run as acc of (s, None) \<Rightarrow> run bs s | (s, Some e) \<Rightarrow> (s, Some e))"
  by (induction as acc rule: run.induct) auto

lemma run_error_mem: "run as acc = (s, Some e) \<Longrightarrow> Inl e \<in> set as"
  by (induction as acc rule: run.induct) auto

lemma file_of_lines_Nil [simp]: "file_of_lines [] = []"
  by (simp add: file_of_lines_def)

lemma file_of_lines_Cons: "file_of_lines (l # ls) = l @ newline @ file_of_lines ls"
  by (simp add: file_of_lines_def newline_def)

lemma file_of_lines_append: "file_of_lines (xs @ ys) = file_of_lines xs @ file_of_lines ys"
  by (simp add: file_of_lines_def)

lemma file_of_lines_map: "concat (map (\<lambda>x. f x @ newline) xs) = file_of_lines (map f xs)"
  by (simp add: file_of_lines_def newline_def comp_def)

lemma metadata_actions_eq:
  "metadata_actions c =
     map Inr ([''BEGIN METADATA'' @ newline, lut_name c @ newline] @
              map (\<lambda>comment. comment @ newline) (comments (stage0 c)) @
              map (\<lambda>comment. comment @ newline) (comments (stage1 c)) @
              [''END METADATA'' @ newline @ newline])"
  by (simp add: metadata_actions_def)

lemma item_matrix_general:
  "shape a = [m, n] \<Longrightarrow> j < m \<Longrightarrow> i < n \<Longrightarrow> item a [j, i] = Inr (data a ! (j * n + i))"
  by (simp add: item_valid)

lemma identity_group_eq:
  assumes "shape (domain l) = [2, 3]" and "i < 3"
  shows "identity_group P d l i =
           map Inr [''2'' @ newline,
                    format_f P d (data (domain l) ! i) @ '' '' @
                    format_f P d (data (domain l) ! (3 + i)) @ newline,
                    format_f P d (of_int_f P 0) @ '' '' @ format_f P d (of_int_f P 1) @ newline]"
  using assms by (simp add: identity_group_def item_matrix_general format_tuple_def)

lemma uniform_group_eq:
  assumes "shape (domain l) = [2, 3]" and "i < 3"
  shows "uniform_group P d l i =
           map Inr [''2'' @ newline,
                    format_f P d (data (domain l) ! i) @ '' '' @
                    format_f P d (data (domain l) ! (3 + i)) @ newline,
                    ''0.0 1.0'' @ newline]"
  using assms by (simp add: uniform_group_def item_matrix_general format_tuple_def)

lemma take3: "3 \<le> length ys \<Longrightarrow> take 3 ys = [ys ! 0, ys ! 1, ys ! 2]"
  by (cases ys; cases "tl ys"; cases "tl (tl ys)") auto

lemma take3_drop:
  assumes "3 * j + 2 < length xs"
  shows "take 3 (drop (j * 3) xs) = [xs ! (3 * j), xs ! (3 * j + 1), xs ! (3 * j + 2)]"
  using assms take3[of "drop (j * 3) xs"] by (simp add: mult.commute)

lemma row_actions_eq:
  assumes "shape tbl = [n, 3]" and "wf_array tbl"
  shows "row_actions P d tbl =
           map Inr (map (\<lambda>j. format_f P d (data tbl ! (3 * j)) @ '' '' @
                               format_f P d (data tbl ! (3 * j + 1)) @ '' '' @
                               format_f P d (data tbl ! (3 * j + 2)) @ newline) [0 ..< n])"
proof -
  have len: "length (data tbl) = 3 * n" using assms by (simp add: wf_array_def)
  have "bind (format_array P d (take 3 (drop (j * 3) (data tbl)))) (\<lambda>s. Inr (s @ newline)) =
        Inr (format_f P d (data tbl ! (3 * j)) @ '' '' @
             format_f P d (data tbl ! (3 * j + 1)) @ '' '' @
             format_f P d (data tbl ! (3 * j + 2)) @ newline)"
    if "j < n" for j
  proof -
    have "3 * j + 2 < length (data tbl)" using that len by simp
    then show ?thesis by (simp add: take3_drop format_array_def)
  qed
  then show ?thesis using assms(1) by (simp add: row_actions_def)
qed

lemma flatten_column_major:
  assumes sh: "shape t = [Nx, Ny, Nz, 3]"
  shows "\<exists>tbl. reshape_F [Nx * Ny * Nz, 3] t = Inr tbl \<and> shape tbl = [Nx * Ny * Nz, 3] \<and>
           wf_array tbl \<and>
           (\<forall>k < Nx * Ny * Nz. \<forall>c < 3.
              data tbl ! (3 * k + c) =
              data t ! c_index [Nx, Ny, Nz, 3]
                         [k mod Nx, (k div Nx) mod Ny, k div (Nx * Ny), c])"
proof -
  let ?M = "Nx * Ny * Nz"
  obtain tbl where tbl: "reshape_F [?M, 3] t = Inr tbl"
    using sh by (simp add: reshape_F_eq)
  have wf: "wf_array tbl" using tbl by (auto simp: reshape_F_eq split: if_splits)
  have "data tbl ! (3 * k + c) =
        data t ! c_index [Nx, Ny, Nz, 3] [k mod Nx, (k div Nx) mod Ny, k div (Nx * Ny), c]"
    if k: "k < ?M" and c: "c < 3" for k c
  proof -
    let ?idx = "[k mod Nx, (k div Nx) mod Ny, k div (Nx * Ny), c]"
    note v = column_major_position[OF k c]
    have v2: "valid_index [?M, 3] [k, c]" using k c by simp
    have "unravel_F [Nx, Ny, Nz, 3] (f_index [Nx, Ny, Nz, 3] ?idx) = ?idx"
      using v(1) by (rule unravel_F_f_index)
    moreover have "f_index [?M, 3] [k, c] = f_index [Nx, Ny, Nz, 3] ?idx"
      using v(2) by simp
    ultimately have u: "unravel_F (shape t) (f_index [?M, 3] [k, c]) = ?idx"
      unfolding sh by (simp only:)
    have "data tbl ! c_index [?M, 3] [k, c] = data t ! c_index (shape t) ?idx"
      using reshape_F_nth(2)[OF tbl v2] u by simp
    then show ?thesis using sh by (simp add: mult.commute)
  qed
  then show ?thesis using tbl wf reshape_F_shape[OF tbl] by blast
qed

lemma cube_actions_eq:
  assumes sh: "shape (table l) = [Nx, Ny, Nz, 3]"
  shows "cube_actions P d l =
           map Inr ((newline @ str_nat Nx @ '' '' @ str_nat Ny @ '' '' @ str_nat Nz @ newline) #
             map (\<lambda>k. format_f P d (data (table l) ! c_index [Nx, Ny, Nz, 3]
                          [k mod Nx, (k div Nx) mod Ny, k div (Nx * Ny), 0]) @ '' '' @
                       format_f P d (data (table l) ! c_index [Nx, Ny, Nz, 3]
                          [k mod Nx, (k div Nx) mod Ny, k div (Nx * Ny), 1]) @ '' '' @
                       format_f P d (data (table l) ! c_index [Nx, Ny, Nz, 3]
                          [k mod Nx, (k div Nx) mod Ny, k div (Nx * Ny), 2]) @ newline)
                 [0 ..< Nx * Ny * Nz])"
proof -
  obtain tbl where tbl: "reshape_F [Nx * Ny * Nz, 3] (table l) = Inr tbl"
    "shape tbl = [Nx * Ny * Nz, 3]" "wf_array tbl"
    and el: "\<forall>k < Nx * Ny * Nz. \<forall>c < 3.
              data tbl ! (3 * k + c) =
              data (table l) ! c_index [Nx, Ny, Nz, 3]
                         [k mod Nx, (k div Nx) mod Ny, k div (Nx * Ny), c]"
    using flatten_column_major[OF sh] by blast
  have e0: "data tbl ! (3 * k) = data (table l) ! c_index [Nx, Ny, Nz, 3]
                         [k mod Nx, (k div Nx) mod Ny, k div (Nx * Ny), 0]"
    and e1: "data tbl ! (3 * k + 1) = data (table l) ! c_index [Nx, Ny, Nz, 3]
                         [k mod Nx, (k div Nx) mod Ny, k div (Nx * Ny), 1]"
    and e2: "data tbl ! (3 * k + 2) = data (table l) ! c_index [Nx, Ny, Nz, 3]
                         [k mod Nx, (k div Nx) mod Ny, k div (Nx * Ny), 2]"
    if "k < Nx * Ny * Nz" for k
    using el[rule_format, OF that, of 0] el[rule_format, OF that, of 1]
      el[rule_format, OF that, of 2] by simp_all
  have rows: "row_actions P d tbl =
           map Inr (map (\<lambda>k. format_f P d (data (table l) ! c_index [Nx, Ny, Nz, 3]
                          [k mod Nx, (k div Nx) mod Ny, k div (Nx * Ny), 0]) @ '' '' @
                       format_f P d (data (table l) ! c_index [Nx, Ny, Nz, 3]
                          [k mod Nx, (k div Nx) mod Ny, k div (Nx * Ny), 1]) @ '' '' @
                       format_f P d (data (table l) ! c_index [Nx, Ny, Nz, 3]
                          [k mod Nx, (k div Nx) mod Ny, k div (Nx * Ny), 2]) @ newline)
                 [0 ..< Nx * Ny * Nz])"
    unfolding row_actions_eq[OF tbl(2,3)] using e0 e1 e2 by simp
  have pd: "prod_list [Nx, Ny, Nz, 3] div 3 = Nx * Ny * Nz" "prod_list [Nx, Ny, Nz, 3] mod 3 = 0"
    by (simp_all add: mult.assoc[symmetric])
  have "cube_actions P d l =
          [Inr (newline @ str_nat Nx @ '' '' @ str_nat Ny @ '' '' @ str_nat Nz @ newline)] @
          row_actions P d tbl"
    unfolding cube_actions_def sh
    by (simp only: list.case pd tbl(1) sum.case simp_thms if_False)
  then show ?thesis by (simp add: rows)
qed

lemma upt_3: "[0..<3] = [0, 1, 2]"
  by (simp add: numeral_3_eq_3 upt_rec)

lemma write_LUT3D:
  assumes sh: "shape (table l) = [Nx, Ny, Nz, 3]" and lo: "2 \<le> Nx" and hi: "Nx \<le> 256"
    and dom: "shape (domain l) = [2, 3]"
  shows "write_LUT_Cinespace P (LUT3D l) path d fs =
           (Inr True, LUT3D l,
            fs(path \<mapsto> file_of_lines
              ([''CSPLUTV100'', ''3D'', '''', ''BEGIN METADATA'', name l] @ comments l @
               [''END METADATA'', ''''] @
               concat (map (\<lambda>i. [''2'',
                                   format_f P d (data (domain l) ! i) @ '' '' @
                                   format_f P d (data (domain l) ! (3 + i)),
                                   format_f P d (of_int_f P 0) @ '' '' @
                                   format_f P d (of_int_f P 1)]) [0, 1, 2]) @
               ['''', str_nat Nx @ '' '' @ str_nat Ny @ '' '' @ str_nat Nz] @
               map (\<lambda>k. format_f P d (data (table l) ! c_index [Nx, Ny, Nz, 3]
                            [k mod Nx, (k div Nx) mod Ny, k div (Nx * Ny), 0]) @ '' '' @
                         format_f P d (data (table l) ! c_index [Nx, Ny, Nz, 3]
                            [k mod Nx, (k div Nx) mod Ny, k div (Nx * Ny), 1]) @ '' '' @
                         format_f P d (data (table l) ! c_index [Nx, Ny, Nz, 3]
                            [k mod Nx, (k div Nx) mod Ny, k div (Nx * Ny), 2]))
                   [0 ..< Nx * Ny * Nz])))"
    (is "_ = (_, _, fs(path \<mapsto> file_of_lines ?lines))")
proof -
  let ?c = "\<lparr>has_3D = True, has_3x1D = False, non_uniform = False,
             lut_name = name l, stage0 = empty_LUT P, stage1 = l\<rparr>"
  have chk: "check_sizes ?c = Inr ()"
    using sh lo hi by (simp add: check_sizes_def lut_size_def index_def)
  define chunks where "chunks =
     ([''CSPLUTV100'' @ newline, ''3D'' @ newline @ newline,
       ''BEGIN METADATA'' @ newline, name l @ newline] @
      map (\<lambda>comment. comment @ newline) (comments l) @
      [''END METADATA'' @ newline @ newline] @
      concat (map (\<lambda>i. [''2'' @ newline,
                    format_f P d (data (domain l) ! i) @ '' '' @
                    format_f P d (data (domain l) ! (3 + i)) @ newline,
                    format_f P d (of_int_f P 0) @ '' '' @ format_f P d (of_int_f P 1) @ newline])
               [0, 1, 2]) @
      (newline @ str_nat Nx @ '' '' @ str_nat Ny @ '' '' @ str_nat Nz @ newline) #
             map (\<lambda>k. format_f P d (data (table l) ! c_index [Nx, Ny, Nz, 3]
                          [k mod Nx, (k div Nx) mod Ny, k div (Nx * Ny), 0]) @ '' '' @
                       format_f P d (data (table l) ! c_index [Nx, Ny, Nz, 3]
                          [k mod Nx, (k div Nx) mod Ny, k div (Nx * Ny), 1]) @ '' '' @
                       format_f P d (data (table l) ! c_index [Nx, Ny, Nz, 3]
                          [k mod Nx, (k div Nx) mod Ny, k div (Nx * Ny), 2]) @ newline)
                 [0 ..< Nx * Ny * Nz])"
  have b: "body P d ?c = map Inr chunks"
    unfolding body_def chunks_def
    by (simp add: metadata_actions_eq upt_3 identity_group_eq[OF dom] cube_actions_eq[OF sh]
        empty_LUT_def mk_lut_def)
  have cc: "concat chunks = file_of_lines ?lines"
    unfolding chunks_def by (simp add: file_of_lines_def newline_def comp_def)
  have r: "run (body P d ?c) [] = (file_of_lines ?lines, None)"
    unfolding b run_Inr cc by simp
  show ?thesis
    unfolding write_LUT_Cinespace_def
    by (simp add: chk r)
qed

subsection \<open>The example files\<close>

lemma parse_example_3D: "parse_file dec_ops example_3D = Inr parsed_3D"
  by code_simp


lemma parse_example_1D: "parse_file dec_ops example_1D = Inr parsed_1D"
  by code_simp


subsection \<open>The assertion on the table size\<close>




subsection \<open>The four results of the reader\<close>

text \<open>
  Claim C2, as the code has it. For every file parsed as far as the table block and
  whose size line agrees with the number of rows: the reader collapses to a single
  \<^verbatim>\<open>LUT3D\<close> (kind 3D) or a single \<^verbatim>\<open>LUT3x1D\<close> (kind 1D) when the shaper
  block has two samples per row and the table samples of every channel are 0 and 1; the
  domain samples are not constrained, and the domain of the result is the row of the
  three first domain samples followed by the row of the three second ones. In every
  other case the result is that of the steps 2 to 4: the sequence of a shaper and a
  cube (kind 3D), the shaper with the rescale folded in (kind 1D with a table of two
  rows of three), or the sequence of two \<^verbatim>\<open>LUT3x1D\<close>.
\<close>

theorem read_collapse_condition:
  assumes fs: "fs path = Some content" and p: "parse_file P content = Inr p"
    and sz: "prod_list (size_line p) = int (length (tl (table_lines p)))"
  shows "(table_samples_unity P (pre_LUT p) \<and> is_3D p \<longrightarrow>
            read_LUT_Cinespace P fs path =
              bind (reshape_table (size_line p) (file_table p)) (\<lambda>t.
                Inr (LUT3D \<lparr>table = t, name = title p,
                       domain = \<lparr>shape = [2, 3],
                                  data = map (\<lambda>k. data (pre_LUT p) ! k) [0, 4, 8, 1, 5, 9]\<rparr>,
                       comments = file_comments p\<rparr>))) \<and>
         (table_samples_unity P (pre_LUT p) \<and> \<not> is_3D p \<longrightarrow>
            read_LUT_Cinespace P fs path =
              Inr (LUT3x1D \<lparr>table = file_table p, name = title p,
                     domain = \<lparr>shape = [2, 3],
                                data = map (\<lambda>k. data (pre_LUT p) ! k) [0, 4, 8, 1, 5, 9]\<rparr>,
                     comments = file_comments p\<rparr>)) \<and>
         (\<not> table_samples_unity P (pre_LUT p) \<longrightarrow>
            (\<exists>sd st. tstack_rows (pre_LUT p) 0 2 4 = Inr sd \<and>
                     tstack_rows (pre_LUT p) 1 3 5 = Inr st \<and>
               read_LUT_Cinespace P fs path =
                 (if is_3D p then
                    bind (reshape_table (size_line p) (file_table p)) (\<lambda>t.
                      Inr (LUTSequence
                        [LUT3x1D \<lparr>table = st, name = title p @ '' - Shaper'', domain = sd,
                                  comments = []\<rparr>,
                         LUT3D \<lparr>table = t, name = title p @ '' - Cube'',
                                domain = unity_range P, comments = file_comments p\<rparr>]))
                  else if shape (file_table p) = [2, 3] then
                    Inr (LUT3x1D \<lparr>table = rescale P st (take 3 (data (file_table p)))
                                             (take 3 (drop 3 (data (file_table p)))),
                           name = title p, domain = sd, comments = file_comments p\<rparr>)
                  else
                    Inr (LUTSequence
                      [LUT3x1D \<lparr>table = st, name = title p @ '' - PreLUT'', domain = sd,
                                comments = []\<rparr>,
                       LUT3x1D \<lparr>table = file_table p, name = title p @ '' - Table'',
                                domain = unity_range P, comments = file_comments p\<rparr>]))))"
proof -
  have rd: "read_LUT_Cinespace P fs path = assemble P p"
    using read_LUT_Cinespace_parsed[of fs path content P p] fs p sz by simp
  show ?thesis unfolding rd by (rule assemble_parsed[OF p])
qed

text \<open>
  The claim C2 as it is written asks that the domain samples be 0 and 1 as well. The
  file \<open>example_3D\<close> has the domain samples -0.5 and 1.5 for its first channel and the
  table samples 0 and 1 for all three, and it reads to a single \<^verbatim>\<open>LUT3D\<close> whose
  domain starts at -0.5 and ends at 1.5 for that channel.
\<close>

theorem read_collapses_with_other_domain:
  "read_LUT_Cinespace dec_ops [''x.csp'' \<mapsto> example_3D] ''x.csp'' =
     Inr (LUT3D \<lparr>table = \<lparr>shape = [2, 1, 2, 3],
                           data = [Fin 1, Fin 2, Fin 3, Fin 7, Fin 8, Fin 9,
                                   Fin 4, Fin 5, Fin 6, Fin 10, Fin 11, Fin 12]\<rparr>,
                  name = ''Cube'',
                  domain = \<lparr>shape = [2, 3],
                            data = [Fin (- (1 / 2)), Fin 0, Fin 0, Fin (3 / 2), Fin 1, Fin 1]\<rparr>,
                  comments = [''a comment'']\<rparr>) \<and>
   parse_domain_section dec_ops
     [''2'', ''-0.5 1.5'', ''0 1'', ''2'', ''0 1'', ''0.0 1.0'', ''2'', ''0 1'', ''0 1''] =
     Inr \<lparr>shape = [6, 2],
          data = [Fin (- (1 / 2)), Fin (3 / 2), Fin 0, Fin 1, Fin 0, Fin 1,
                  Fin 0, Fin 1, Fin 0, Fin 1, Fin 0, Fin 1]\<rparr> \<and>
   \<not> feq dec_ops (Fin (- (1 / 2))) (fzero dec_ops) \<and>
   \<not> feq dec_ops (Fin (3 / 2)) (fone dec_ops)"
  by code_simp


theorem read_collapse_condition_witness:
  "read_LUT_Cinespace dec_ops [''x.csp'' \<mapsto> example_1D] ''x.csp'' =
     Inr (LUT3x1D \<lparr>table = \<lparr>shape = [3, 3],
                             data = [Fin 0, Fin 1, Fin 10, Fin (1 / 2), Fin 3, Fin 2,
                                     Fin 2, Fin 5, NaN]\<rparr>,
                    name = ''Shaper'',
                    domain = \<lparr>shape = [3, 3],
                              data = [Fin 0, Fin 0, Fin 0, Fin (1 / 2), Fin (1 / 2), Fin 1,
                                      Fin 1, Fin 1, NaN]\<rparr>,
                    comments = []\<rparr>)"
proof -
  have sz: "prod_list (size_line parsed_1D) = int (length (tl (table_lines parsed_1D)))"
    by (simp add: parsed_1D_def)
  have nu: "\<not> table_samples_unity dec_ops (pre_LUT parsed_1D)"
    by (simp add: table_samples_unity_def parsed_1D_def)
  have sd: "tstack_rows (pre_LUT parsed_1D) 0 2 4 =
              Inr \<lparr>shape = [3, 3],
                   data = [Fin 0, Fin 0, Fin 0, Fin (1 / 2), Fin (1 / 2), Fin 1,
                           Fin 1, Fin 1, NaN]\<rparr>"
    by code_simp
  have st: "tstack_rows (pre_LUT parsed_1D) 1 3 5 =
              Inr \<lparr>shape = [3, 3],
                   data = [Fin 0, Fin 0, Fin 1, Fin (1 / 4), Fin (1 / 2), Fin 0,
                           Fin 1, Fin 1, NaN]\<rparr>"
    by code_simp
  have rs: "rescale dec_ops \<lparr>shape = [3, 3],
                   data = [Fin 0, Fin 0, Fin 1, Fin (1 / 4), Fin (1 / 2), Fin 0,
                           Fin 1, Fin 1, NaN]\<rparr>
              (take 3 (data (file_table parsed_1D)))
              (take 3 (drop 3 (data (file_table parsed_1D)))) =
            \<lparr>shape = [3, 3],
             data = [Fin 0, Fin 1, Fin 10, Fin (1 / 2), Fin 3, Fin 2, Fin 2, Fin 5, NaN]\<rparr>"
    by code_simp
  have k: "\<not> is_3D parsed_1D" "shape (file_table parsed_1D) = [2, 3]"
    "title parsed_1D = ''Shaper''" "file_comments parsed_1D = []"
    by (simp_all add: parsed_1D_def)
  show ?thesis
    using read_collapse_condition[of "[''x.csp'' \<mapsto> example_1D]" "''x.csp''" example_1D dec_ops parsed_1D,
             OF _ parse_example_1D sz] nu sd st rs k
    by simp
qed

subsection \<open>Column-major order of the cube\<close>

text \<open>
  Claim C3. For every file of kind 3D whose size line is \<open>Nx Ny Nz\<close> and whose table
  is \<open>Nx * Ny * Nz\<close> rows of three, the \<^verbatim>\<open>LUT3D\<close> that the reader returns (alone or
  as the second stage of a sequence) has a table of shape \<open>(Nx, Ny, Nz, 3)\<close> in which
  row \<open>k\<close> of the file is at the grid index
  \<open>(k mod Nx, (k div Nx) mod Ny, k div (Nx * Ny))\<close>: the first axis varies fastest. The
  writer flattens the same way: after the size line, line \<open>k\<close> of the table holds the
  three values at that grid index.
\<close>

theorem cube_table_column_major:
  "(fs path = Some content \<and> parse_file P content = Inr p \<and> is_3D p \<and>
    size_line p = [int Nx, int Ny, int Nz] \<and> shape (file_table p) = [Nx * Ny * Nz, 3] \<longrightarrow>
      (\<exists>l. (read_LUT_Cinespace P fs path = Inr (LUT3D l) \<or>
            (\<exists>a. read_LUT_Cinespace P fs path = Inr (LUTSequence [LUT3x1D a, LUT3D l]))) \<and>
           shape (table l) = [Nx, Ny, Nz, 3] \<and>
           (\<forall>k < Nx * Ny * Nz. \<forall>c < 3.
              item (table l) [k mod Nx, (k div Nx) mod Ny, k div (Nx * Ny), c]
                = item (file_table p) [k, c]))) \<and>
   (shape (table l') = [Nx, Ny, Nz, 3] \<and> 2 \<le> Nx \<and> Nx \<le> 256 \<and>
    shape (domain l') = [2, 3] \<longrightarrow>
      (\<exists>hdr. write_LUT_Cinespace P (LUT3D l') path' decimals fs' =
         (Inr True, LUT3D l',
          fs'(path' \<mapsto> file_of_lines
            (hdr @ [str_nat Nx @ '' '' @ str_nat Ny @ '' '' @ str_nat Nz] @
             map (\<lambda>k. format_f P decimals (data (table l') ! c_index [Nx, Ny, Nz, 3]
                          [k mod Nx, (k div Nx) mod Ny, k div (Nx * Ny), 0]) @ '' '' @
                       format_f P decimals (data (table l') ! c_index [Nx, Ny, Nz, 3]
                          [k mod Nx, (k div Nx) mod Ny, k div (Nx * Ny), 1]) @ '' '' @
                       format_f P decimals (data (table l') ! c_index [Nx, Ny, Nz, 3]
                          [k mod Nx, (k div Nx) mod Ny, k div (Nx * Ny), 2]))
                 [0 ..< Nx * Ny * Nz])))))"
proof (intro conjI impI)
  assume "fs path = Some content \<and> parse_file P content = Inr p \<and> is_3D p \<and>
    size_line p = [int Nx, int Ny, int Nz] \<and> shape (file_table p) = [Nx * Ny * Nz, 3]"
  then show "\<exists>l. (read_LUT_Cinespace P fs path = Inr (LUT3D l) \<or>
            (\<exists>a. read_LUT_Cinespace P fs path = Inr (LUTSequence [LUT3x1D a, LUT3D l]))) \<and>
           shape (table l) = [Nx, Ny, Nz, 3] \<and>
           (\<forall>k < Nx * Ny * Nz. \<forall>c < 3.
              item (table l) [k mod Nx, (k div Nx) mod Ny, k div (Nx * Ny), c]
                = item (file_table p) [k, c])"
    using read_3D_column_major[of fs path content P p Nx Ny Nz] by blast
next
  assume a: "shape (table l') = [Nx, Ny, Nz, 3] \<and> 2 \<le> Nx \<and> Nx \<le> 256 \<and>
    shape (domain l') = [2, 3]"
  show "\<exists>hdr. write_LUT_Cinespace P (LUT3D l') path' decimals fs' =
         (Inr True, LUT3D l',
          fs'(path' \<mapsto> file_of_lines
            (hdr @ [str_nat Nx @ '' '' @ str_nat Ny @ '' '' @ str_nat Nz] @
             map (\<lambda>k. format_f P decimals (data (table l') ! c_index [Nx, Ny, Nz, 3]
                          [k mod Nx, (k div Nx) mod Ny, k div (Nx * Ny), 0]) @ '' '' @
                       format_f P decimals (data (table l') ! c_index [Nx, Ny, Nz, 3]
                          [k mod Nx, (k div Nx) mod Ny, k div (Nx * Ny), 1]) @ '' '' @
                       format_f P decimals (data (table l') ! c_index [Nx, Ny, Nz, 3]
                          [k mod Nx, (k div Nx) mod Ny, k div (Nx * Ny), 2]))
                 [0 ..< Nx * Ny * Nz])))"
    using write_LUT3D[of l' Nx Ny Nz P path' decimals fs'] a
    by (intro exI[of _ "[''CSPLUTV100'', ''3D'', '''', ''BEGIN METADATA'', name l'] @ comments l' @
               [''END METADATA'', ''''] @
               concat (map (\<lambda>i. [''2'',
                                   format_f P decimals (data (domain l') ! i) @ '' '' @
                                   format_f P decimals (data (domain l') ! (3 + i)),
                                   format_f P decimals (of_int_f P 0) @ '' '' @
                                   format_f P decimals (of_int_f P 1)]) [0, 1, 2]) @
               ['''']"]) simp
qed


theorem cube_table_column_major_witness:
  "(\<exists>l. (read_LUT_Cinespace dec_ops [''x.csp'' \<mapsto> example_3D] ''x.csp'' = Inr (LUT3D l) \<or>
         (\<exists>a. read_LUT_Cinespace dec_ops [''x.csp'' \<mapsto> example_3D] ''x.csp''
                = Inr (LUTSequence [LUT3x1D a, LUT3D l]))) \<and>
        shape (table l) = [2, 1, 2, 3] \<and>
        item (table l) [1, 0, 0, 2] = Inr (Fin 6) \<and>
        item (table l) [0, 0, 1, 0] = Inr (Fin 7)) \<and>
   (\<exists>hdr. write_LUT_Cinespace dec_ops (LUT3D example_LUT3D) ''y.csp'' 1 Map.empty =
      (Inr True, LUT3D example_LUT3D,
       [''y.csp'' \<mapsto> file_of_lines
          (hdr @ [''2 1 2'', ''1.0 2.0 3.0'', ''4.0 5.0 6.0'', ''7.0 8.0 9.0'',
                  ''10.0 11.0 12.0''])]))"
proof -
  have h1: "[''x.csp'' \<mapsto> example_3D] ''x.csp'' = Some example_3D \<and>
        parse_file dec_ops example_3D = Inr parsed_3D \<and>
        is_3D parsed_3D \<and> size_line parsed_3D = [int 2, int 1, int 2] \<and>
        shape (file_table parsed_3D) = [2 * 1 * 2, 3]"
    using parse_example_3D by (simp add: parsed_3D_def)
  have h2: "shape (table example_LUT3D) = [2, 1, 2, 3] \<and> (2::nat) \<le> 2 \<and> (2::nat) \<le> 256 \<and>
        shape (domain example_LUT3D) = [2, 3]"
    by (simp add: example_LUT3D_def)
  have i1: "item (file_table parsed_3D) [1, 2] = Inr (Fin 6)"
    and i2: "item (file_table parsed_3D) [2, 0] = Inr (Fin 7)"
    by code_simp+
  have rows: "[str_nat 2 @ '' '' @ str_nat 1 @ '' '' @ str_nat 2] @
             map (\<lambda>k. format_f dec_ops 1 (data (table example_LUT3D) ! c_index [2, 1, 2, 3]
                          [k mod 2, (k div 2) mod 1, k div (2 * 1), 0]) @ '' '' @
                       format_f dec_ops 1 (data (table example_LUT3D) ! c_index [2, 1, 2, 3]
                          [k mod 2, (k div 2) mod 1, k div (2 * 1), 1]) @ '' '' @
                       format_f dec_ops 1 (data (table example_LUT3D) ! c_index [2, 1, 2, 3]
                          [k mod 2, (k div 2) mod 1, k div (2 * 1), 2]))
                 [0 ..< 2 * 1 * 2] =
             [''2 1 2'', ''1.0 2.0 3.0'', ''4.0 5.0 6.0'', ''7.0 8.0 9.0'', ''10.0 11.0 12.0'']"
    by code_simp
  note t = cube_table_column_major[of "[''x.csp'' \<mapsto> example_3D]" "''x.csp''" example_3D dec_ops parsed_3D 2 1 2
             example_LUT3D "''y.csp''" 1 Map.empty]
  from t h1 obtain l where l:
    "read_LUT_Cinespace dec_ops [''x.csp'' \<mapsto> example_3D] ''x.csp'' = Inr (LUT3D l) \<or>
         (\<exists>a. read_LUT_Cinespace dec_ops [''x.csp'' \<mapsto> example_3D] ''x.csp''
                = Inr (LUTSequence [LUT3x1D a, LUT3D l]))"
    "shape (table l) = [2, 1, 2, 3]"
    "\<forall>k < 2 * 1 * 2. \<forall>c < 3.
              item (table l) [k mod 2, (k div 2) mod 1, k div (2 * 1), c]
                = item (file_table parsed_3D) [k, c]"
    by blast
  have "item (table l) [1, 0, 0, 2] = Inr (Fin 6)"
    using l(3)[rule_format, of 1 2] i1 by simp
  moreover have "item (table l) [0, 0, 1, 0] = Inr (Fin 7)"
    using l(3)[rule_format, of 2 0] i2 by simp
  moreover from t h2 obtain hdr where
    "write_LUT_Cinespace dec_ops (LUT3D example_LUT3D) ''y.csp'' 1 Map.empty =
         (Inr True, LUT3D example_LUT3D,
          [''y.csp'' \<mapsto> file_of_lines
            (hdr @ [str_nat 2 @ '' '' @ str_nat 1 @ '' '' @ str_nat 2] @
             map (\<lambda>k. format_f dec_ops 1 (data (table example_LUT3D) ! c_index [2, 1, 2, 3]
                          [k mod 2, (k div 2) mod 1, k div (2 * 1), 0]) @ '' '' @
                       format_f dec_ops 1 (data (table example_LUT3D) ! c_index [2, 1, 2, 3]
                          [k mod 2, (k div 2) mod 1, k div (2 * 1), 1]) @ '' '' @
                       format_f dec_ops 1 (data (table example_LUT3D) ! c_index [2, 1, 2, 3]
                          [k mod 2, (k div 2) mod 1, k div (2 * 1), 2]))
                 [0 ..< 2 * 1 * 2])])"
    by blast
  ultimately show ?thesis using l(1,2) unfolding rows by blast
qed


subsection \<open>The rescale folded into the shaper\<close>

text \<open>
  Claim C4. For every file of kind 1D whose shaper does not pass the collapsing test
  and whose table block is two rows of three (with the size line 2), the reader returns
  a single \<^verbatim>\<open>LUT3x1D\<close> with the title as name and the comments of the file; its
  domain is the three domain rows of the shaper block as columns, and its table holds, for
  sample \<open>j\<close> and channel \<open>c\<close>, the shaper table sample times (max - min) plus min,
  where min and max are the entries of channel \<open>c\<close> in the first and second table row.
\<close>

theorem read_folds_rescale_into_shaper:
  assumes fs: "fs path = Some content" and p: "parse_file P content = Inr p"
    and k1: "\<not> is_3D p" and nt: "\<not> table_samples_unity P (pre_LUT p)"
    and sh: "shape (file_table p) = [2, 3]" and sz: "prod_list (size_line p) = 2"
  shows "\<exists>N sd st.
           shape (pre_LUT p) = [6, N] \<and>
           read_LUT_Cinespace P fs path =
             Inr (LUT3x1D \<lparr>table = st, name = title p, domain = sd,
                            comments = file_comments p\<rparr>) \<and>
           shape st = [N, 3] \<and> shape sd = [N, 3] \<and>
           (\<forall>j < N. \<forall>c < 3.
              item st [j, c] =
                Inr (fadd P (fmul P (data (pre_LUT p) ! ((2 * c + 1) * N + j))
                                    (fsub P (data (file_table p) ! (3 + c))
                                            (data (file_table p) ! c)))
                            (data (file_table p) ! c)) \<and>
              item sd [j, c] = Inr (data (pre_LUT p) ! (2 * c * N + j)))"
proof -
  have "prod_list (size_line p) = int (length (tl (table_lines p)))"
    using parsed_table_rows[OF p sh] sz by simp
  then have rd: "read_LUT_Cinespace P fs path = assemble P p"
    using read_LUT_Cinespace_parsed[of fs path content P p] fs p by simp
  obtain N sd st where N: "shape (pre_LUT p) = [6, N]"
    and sd: "tstack_rows (pre_LUT p) 0 2 4 = Inr sd" "shape sd = [N, 3]"
    and st: "tstack_rows (pre_LUT p) 1 3 5 = Inr st" "shape st = [N, 3]" "wf_array st"
    and el: "\<forall>j < N. \<forall>c < 3. data sd ! (3 * j + c) = data (pre_LUT p) ! (2 * c * N + j) \<and>
                              data st ! (3 * j + c) = data (pre_LUT p) ! ((2 * c + 1) * N + j)"
    using parsed_shaper_columns[OF p] by blast
  let ?mn = "take 3 (data (file_table p))"
  let ?mx = "take 3 (drop 3 (data (file_table p)))"
  let ?t = "rescale P st ?mn ?mx"
  have a: "assemble P p = Inr (LUT3x1D \<lparr>table = ?t, name = title p, domain = sd,
                                       comments = file_comments p\<rparr>)"
    using assemble_parsed[OF p] nt k1 sh sd(1) st(1) by auto
  have len: "length (data (file_table p)) = 6"
    using parse_file_Inr[OF p] sh by (simp add: wf_array_def)
  have "item ?t [j, c] =
                Inr (fadd P (fmul P (data (pre_LUT p) ! ((2 * c + 1) * N + j))
                                    (fsub P (data (file_table p) ! (3 + c))
                                            (data (file_table p) ! c)))
                            (data (file_table p) ! c)) \<and>
        item sd [j, c] = Inr (data (pre_LUT p) ! (2 * c * N + j))"
    if "j < N" "c < 3" for j c
    using that el len rescale_nth[OF st(2) st(3) that, of P ?mn ?mx]
    by (simp add: item_matrix sd(2))
  then show ?thesis
    unfolding rd a using N sd(2) rescale_nth(1)[OF st(2) st(3)] 
    by (intro exI[of _ N] exI[of _ sd] exI[of _ ?t]) (simp add: rescale_def st(2))
qed


theorem read_folds_rescale_into_shaper_witness:
  "\<exists>sd st. read_LUT_Cinespace dec_ops [''x.csp'' \<mapsto> example_1D] ''x.csp'' =
             Inr (LUT3x1D \<lparr>table = st, name = ''Shaper'', domain = sd, comments = []\<rparr>) \<and>
           shape st = [3, 3] \<and>
           item st [1, 0] = Inr (fadd dec_ops (fmul dec_ops (Fin (1 / 4))
                                   (fsub dec_ops (Fin 2) (Fin 0))) (Fin 0)) \<and>
           item sd [1, 0] = Inr (Fin (1 / 2))"
proof -
  have nu: "\<not> table_samples_unity dec_ops (pre_LUT parsed_1D)"
    by (simp add: table_samples_unity_def parsed_1D_def)
  have k: "\<not> is_3D parsed_1D" "shape (file_table parsed_1D) = [2, 3]"
    "prod_list (size_line parsed_1D) = 2"
    by (simp_all add: parsed_1D_def)
  from read_folds_rescale_into_shaper[of "[''x.csp'' \<mapsto> example_1D]" "''x.csp''" example_1D dec_ops parsed_1D,
          OF _ parse_example_1D k(1) nu k(2) k(3)]
  obtain N sd st where N: "shape (pre_LUT parsed_1D) = [6, N]"
    and r: "read_LUT_Cinespace dec_ops [''x.csp'' \<mapsto> example_1D] ''x.csp'' =
             Inr (LUT3x1D \<lparr>table = st, name = title parsed_1D, domain = sd,
                            comments = file_comments parsed_1D\<rparr>)"
    and s: "shape st = [N, 3]"
    and el: "\<forall>j < N. \<forall>c < 3.
              item st [j, c] =
                Inr (fadd dec_ops (fmul dec_ops (data (pre_LUT parsed_1D) ! ((2 * c + 1) * N + j))
                                    (fsub dec_ops (data (file_table parsed_1D) ! (3 + c))
                                            (data (file_table parsed_1D) ! c)))
                            (data (file_table parsed_1D) ! c)) \<and>
              item sd [j, c] = Inr (data (pre_LUT parsed_1D) ! (2 * c * N + j))"
    by auto
  have N3: "N = 3" using N by (simp add: parsed_1D_def)
  have "item st [1, 0] = Inr (fadd dec_ops (fmul dec_ops (Fin (1 / 4))
                                   (fsub dec_ops (Fin 2) (Fin 0))) (Fin 0)) \<and>
        item sd [1, 0] = Inr (Fin (1 / 2))"
    using el[rule_format, of 1 0] N3 by (simp add: parsed_1D_def)
  then show ?thesis using r s N3 by (simp add: parsed_1D_def)
qed

subsection \<open>Empty files\<close>

text \<open>
  Claim C8. The reader is meant to fail with \<open>EmptyFileError\<close> whenever no line is left
  after the lines are stripped and the blank ones discarded. The assertion of the source
  is on the lines as they are read, before they are stripped: a file of zero bytes fails
  with \<open>EmptyFileError\<close>, and a file that holds only blank lines passes the assertion and
  fails at \<^verbatim>\<open>header = lines[0]\<close> with \<open>IndexError\<close>.
\<close>

theorem read_blank_lines_IndexError:
  "read_LUT_Cinespace P [''blank.csp'' \<mapsto> '' '' @ newline @ newline] ''blank.csp''
     = Inl IndexError
   \<and> read_LUT_Cinespace P [''blank.csp'' \<mapsto> []] ''blank.csp'' = Inl EmptyFileError"
  by (simp add: read_LUT_Cinespace_def parse_file_def readlines_def newline_def strip_def
      isspace_def index_def)

subsection \<open>The object of the caller\<close>

lemma tstack_same:
  "tstack a a a =
     Inr \<lparr>shape = shape a @ [3],
          data = concat (map (\<lambda>j. [data a ! j, data a ! j, data a ! j])
                             [0 ..< prod_list (shape a)])\<rparr>"
  by (simp add: tstack_def)

lemma as_LUT3x1D_total: "\<exists>l'. as_LUT3x1D l = Inr l'"
  by (simp add: as_LUT3x1D_def tstack_same)

text \<open>
  Claim C5. The writer is meant to leave the object of the caller as it was. For a
  sequence whose first stage is a \<^verbatim>\<open>LUT1D\<close> the source assigns the converted stage to
  \<^verbatim>\<open>LUT[0]\<close> of the sequence it was given: after the call the sequence of the caller
  is not the one that was passed, whatever the stages hold.
\<close>

theorem write_replaces_stage_of_sequence:
  "fst (snd (write_LUT_Cinespace P (LUTSequence [LUT1D a, LUT3D b]) path decimals fs))
     \<noteq> LUTSequence [LUT1D a, LUT3D b]"
proof -
  obtain a' where a': "as_LUT3x1D a = Inr a'"
    using as_LUT3x1D_total by blast
  show ?thesis
    by (simp add: write_LUT_Cinespace_def a' split: sum.splits prod.splits)
qed

subsection \<open>Exceptions of the writer\<close>

lemma Inl_eq_bind: "Inl e = bind m f \<longleftrightarrow> (m = Inl e \<or> (\<exists>x. m = Inr x \<and> f x = Inl e))"
  by (cases m) auto

lemma item_Inl: "item a idx = Inl e \<Longrightarrow> e = IndexError \<or> e = TypeError"
  by (auto simp: item_def split: if_splits)

lemma lut_size_Inl: "lut_size l = Inl e \<Longrightarrow> e = IndexError"
  by (auto simp: lut_size_def index_eq_Inl)

lemma nanmin_Inl: "nanmin P a = Inl e \<Longrightarrow> e = ValueError"
  by (auto simp: nanmin_def split: if_splits)

lemma nanmax_Inl: "nanmax P a = Inl e \<Longrightarrow> e = ValueError"
  by (auto simp: nanmax_def split: if_splits)

lemma tsplit_Inl: "tsplit a = Inl e \<Longrightarrow> e = ValueError"
  by (auto simp: tsplit_def split: list.splits if_splits)

lemma ragged_size_Inl: "ragged_size P a = Inl e \<Longrightarrow> e = ValueError \<or> e = IndexError"
  by (auto simp: ragged_size_def bind_eq_Inl Inl_eq_bind index_eq_Inl dest: tsplit_Inl split: prod.splits)

lemma table_min_max_Inl:
  "table_min_max P l = Inl e \<Longrightarrow> e = ValueError \<or> e = UnboundLocalError"
  by (auto simp: table_min_max_def bind_eq_Inl Inl_eq_bind dest: nanmin_Inl nanmax_Inl split: if_splits)

lemma format_array_Inl: "format_array P d xs = Inl e \<Longrightarrow> e = IndexError"
  by (auto simp: format_array_def split: list.splits)

lemma format_tuple_Inl: "format_tuple P d xs = Inl e \<Longrightarrow> e = IndexError"
  by (auto simp: format_tuple_def split: list.splits)

lemma row_actions_errors: "Inl e \<in> set (row_actions P d t) \<Longrightarrow> e \<in> runtime_errors"
  by (auto simp: row_actions_def runtime_errors_def bind_eq_Inl Inl_eq_bind dest: format_array_Inl
      split: list.splits if_splits)

lemma identity_group_errors:
  "Inl e \<in> set (identity_group P d l i) \<Longrightarrow> e \<in> runtime_errors"
  by (auto simp: identity_group_def runtime_errors_def bind_eq_Inl Inl_eq_bind
      dest: item_Inl format_tuple_Inl)

lemma uniform_group_errors:
  "Inl e \<in> set (uniform_group P d l i) \<Longrightarrow> e \<in> runtime_errors"
  by (auto simp: uniform_group_def runtime_errors_def bind_eq_Inl Inl_eq_bind
      dest: item_Inl format_tuple_Inl)

lemma min_max_actions_errors:
  "Inl e \<in> set (min_max_actions P d l) \<Longrightarrow> e \<in> runtime_errors"
  by (auto simp: min_max_actions_def runtime_errors_def bind_eq_Inl Inl_eq_bind
      dest: table_min_max_Inl format_array_Inl split: prod.splits)

lemma cube_actions_errors:
  "Inl e \<in> set (cube_actions P d l) \<Longrightarrow> e \<in> runtime_errors"
proof -
  assume a: "Inl e \<in> set (cube_actions P d l)"
  show ?thesis
  proof (cases "\<exists>s0 s1 s2 r. shape (table l) = s0 # s1 # s2 # r")
    case False
    then have "cube_actions P d l = [Inl IndexError]"
      by (auto simp: cube_actions_def split: list.splits)
    with a show ?thesis by (simp add: runtime_errors_def)
  next
    case True
    then obtain s0 s1 s2 r where s: "shape (table l) = s0 # s1 # s2 # r" by blast
    from a show ?thesis
      unfolding cube_actions_def s
      using row_actions_errors[of e P d]
      by (auto simp: runtime_errors_def dest: reshape_F_Inl split: if_splits sum.splits)
  qed
qed

lemma shaper_group_errors:
  "Inl e \<in> set (shaper_group P d nu l i) \<Longrightarrow> e \<in> runtime_errors"
proof -
  assume a: "Inl e \<in> set (shaper_group P d nu l i)"
  let ?sz = "if is_domain_explicit l
            then bind (ragged_size P (domain l)) (\<lambda>rs.
                 bind (index rs i) (\<lambda>n.
                 bind (table_min_max P l) (\<lambda>_. Inr n)))
            else lut_size l"
  show ?thesis
  proof (cases ?sz)
    case (Inl e')
    then have "shaper_group P d nu l i = [Inl e']"
      unfolding shaper_group_def by simp
    moreover have "e' \<in> runtime_errors"
      using Inl
      by (auto simp: runtime_errors_def bind_eq_Inl Inl_eq_bind index_eq_Inl
          dest: ragged_size_Inl table_min_max_Inl lut_size_Inl split: if_splits)
    ultimately show ?thesis using a by simp
  next
    case (Inr n)
    from a show ?thesis
      unfolding shaper_group_def Inr
      by (auto simp: runtime_errors_def bind_eq_Inl Inl_eq_bind
          dest: item_Inl lut_size_Inl table_min_max_Inl split: if_splits prod.splits)
  qed
qed

lemma body_errors: "Inl e \<in> set (body P d c) \<Longrightarrow> e \<in> runtime_errors"
  unfolding body_def
  using shaper_group_errors[of e P d "non_uniform c" "stage0 c"]
    identity_group_errors[of e P d "stage1 c"] uniform_group_errors[of e P d "stage0 c"]
    min_max_actions_errors[of e P d "stage0 c"] cube_actions_errors[of e P d "stage1 c"]
    row_actions_errors[of e P d "table (stage0 c)"]
  by (auto simp: metadata_actions_eq bind_eq_Inl Inl_eq_bind runtime_errors_def dest: lut_size_Inl
      split: if_splits)

lemma check_sizes_Inl:
  "check_sizes c = Inl e \<Longrightarrow>
   e = ShaperSizeOutOfRangeError \<or> e = CubeSizeOutOfRangeError \<or> e = IndexError"
  by (auto simp: check_sizes_def bind_eq_Inl Inl_eq_bind dest: lut_size_Inl split: if_splits)

lemma write_after_normalise:
  assumes "normalise P LUT = Inr (c, LUT')"
  shows "write_LUT_Cinespace P LUT path d fs =
           (case check_sizes c of
              Inl e \<Rightarrow> (Inl e, LUT', fs)
            | Inr _ \<Rightarrow> ((case snd (run (body P d c) []) of None \<Rightarrow> Inr True | Some e \<Rightarrow> Inl e),
                        LUT', fs(path \<mapsto> fst (run (body P d c) []))))"
  using assms by (simp add: write_LUT_Cinespace_def split: sum.splits prod.splits)

lemma write_errors_after_normalise:
  assumes "normalise P LUT = Inr (c, LUT')"
    and "fst (write_LUT_Cinespace P LUT path d fs) = Inl e"
  shows "e = ShaperSizeOutOfRangeError \<or> e = CubeSizeOutOfRangeError \<or> e \<in> runtime_errors"
proof (cases "check_sizes c")
  case (Inl e')
  then show ?thesis
    using assms check_sizes_Inl[of c e']
    by (auto simp: write_after_normalise runtime_errors_def)
next
  case (Inr u)
  obtain s r where r: "run (body P d c) [] = (s, r)" by (cases "run (body P d c) []")
  show ?thesis
    using assms Inr r run_error_mem[of "body P d c" "[]" s e] body_errors[of e P d c]
    by (auto simp: write_after_normalise split: option.splits)
qed

lemma sequence_shape_iff:
  "(length stages = 2 \<and>
    (isinstance_LUT1D (stages ! 0) \<or> isinstance_LUT3x1D (stages ! 0)) \<and>
    isinstance_LUT3D (stages ! 1)) \<longleftrightarrow>
   (\<exists>a b. stages = [LUT1D a, LUT3D b] \<or> stages = [LUT3x1D a, LUT3D b])"
proof
  assume h: "length stages = 2 \<and>
             (isinstance_LUT1D (stages ! 0) \<or> isinstance_LUT3x1D (stages ! 0)) \<and>
             isinstance_LUT3D (stages ! 1)"
  then obtain x y where s: "stages = [x, y]"
    by (cases stages; cases "tl stages") auto
  with h show "\<exists>a b. stages = [LUT1D a, LUT3D b] \<or> stages = [LUT3x1D a, LUT3D b]"
    by (cases x; cases y) auto
next
  assume "\<exists>a b. stages = [LUT1D a, LUT3D b] \<or> stages = [LUT3x1D a, LUT3D b]"
  then show "length stages = 2 \<and>
             (isinstance_LUT1D (stages ! 0) \<or> isinstance_LUT3x1D (stages ! 0)) \<and>
             isinstance_LUT3D (stages ! 1)" by auto
qed

lemma normalise_sequence_ok:
  assumes "\<exists>a b. stages = [LUT1D a, LUT3D b] \<or> stages = [LUT3x1D a, LUT3D b]"
  shows "\<exists>c LUT'. normalise P (LUTSequence stages) = Inr (c, LUT')"
proof -
  from assms obtain a b where "stages = [LUT1D a, LUT3D b] \<or> stages = [LUT3x1D a, LUT3D b]"
    by blast
  moreover obtain a' where "as_LUT3x1D a = Inr a'" using as_LUT3x1D_total by blast
  ultimately show ?thesis by auto
qed

lemma normalise_single_ok:
  "\<exists>c LUT'. normalise P (LUT1D l) = Inr (c, LUT')"
  "\<exists>c LUT'. normalise P (LUT3x1D l) = Inr (c, LUT')"
  "\<exists>c LUT'. normalise P (LUT3D l) = Inr (c, LUT')"
  using as_LUT3x1D_total[of l] by auto

lemma check_sizes_shaper_out_of_range:
  assumes "has_3x1D c" and "lut_size (stage0 c) = Inr n" and "n < 2 \<or> 65536 < n"
  shows "check_sizes c = Inl ShaperSizeOutOfRangeError"
  using assms by (auto simp: check_sizes_def)

lemma check_sizes_cube_out_of_range:
  assumes "has_3D c" and "lut_size (stage1 c) = Inr n" and "n < 2 \<or> 256 < n"
    and "\<not> has_3x1D c \<or> (\<exists>m. lut_size (stage0 c) = Inr m \<and> 2 \<le> m \<and> m \<le> 65536)"
  shows "check_sizes c = Inl CubeSizeOutOfRangeError"
  using assms by (auto simp: check_sizes_def)


subsection \<open>The groups of an explicit shaper\<close>









subsection \<open>Types and shapes the writer rejects\<close>

text \<open>
  Claim C9. The writer fails with \<open>InvalidLUTTypeError\<close> for every input that is not
  a \<^verbatim>\<open>LUT1D\<close>, \<^verbatim>\<open>LUT3x1D\<close>, \<^verbatim>\<open>LUT3D\<close> or \<^verbatim>\<open>LUTSequence\<close>, and for no
  input that is one; for a sequence it fails with \<open>InvalidSequenceShapeError\<close> unless
  the sequence has exactly two stages, the first a \<^verbatim>\<open>LUT1D\<close> or \<^verbatim>\<open>LUT3x1D\<close> and
  the second a \<^verbatim>\<open>LUT3D\<close>, and for such a sequence it does not. In both failures
  the file system and the object of the caller are as before the call.
\<close>

theorem write_rejects_other_types_and_shapes:
  "((\<forall>l. LUT \<noteq> LUT1D l \<and> LUT \<noteq> LUT3x1D l \<and> LUT \<noteq> LUT3D l) \<and>
    (\<forall>stages. LUT \<noteq> LUTSequence stages) \<longrightarrow>
      write_LUT_Cinespace P LUT path decimals fs = (Inl InvalidLUTTypeError, LUT, fs)) \<and>
   (\<not> (\<exists>a b. stages = [LUT1D a, LUT3D b] \<or> stages = [LUT3x1D a, LUT3D b]) \<longrightarrow>
      write_LUT_Cinespace P (LUTSequence stages) path decimals fs =
        (Inl InvalidSequenceShapeError, LUTSequence stages, fs)) \<and>
   ((\<exists>a b. stages' = [LUT1D a, LUT3D b] \<or> stages' = [LUT3x1D a, LUT3D b]) \<longrightarrow>
      fst (write_LUT_Cinespace P (LUTSequence stages') path decimals fs)
        \<noteq> Inl InvalidSequenceShapeError \<and>
      fst (write_LUT_Cinespace P (LUTSequence stages') path decimals fs)
        \<noteq> Inl InvalidLUTTypeError) \<and>
   fst (write_LUT_Cinespace P (LUT1D l) path decimals fs) \<noteq> Inl InvalidLUTTypeError \<and>
   fst (write_LUT_Cinespace P (LUT3x1D l) path decimals fs) \<noteq> Inl InvalidLUTTypeError \<and>
   fst (write_LUT_Cinespace P (LUT3D l) path decimals fs) \<noteq> Inl InvalidLUTTypeError"
proof -
  have a: "write_LUT_Cinespace P LUT path decimals fs = (Inl InvalidLUTTypeError, LUT, fs)"
    if "\<forall>l. LUT \<noteq> LUT1D l \<and> LUT \<noteq> LUT3x1D l \<and> LUT \<noteq> LUT3D l"
      "\<forall>stages. LUT \<noteq> LUTSequence stages"
    using that by (cases LUT) (auto simp: write_LUT_Cinespace_def)
  have b: "write_LUT_Cinespace P (LUTSequence stages) path decimals fs =
        (Inl InvalidSequenceShapeError, LUTSequence stages, fs)"
    if "\<not> (\<exists>a b. stages = [LUT1D a, LUT3D b] \<or> stages = [LUT3x1D a, LUT3D b])"
    using that sequence_shape_iff[of stages] by (simp add: write_LUT_Cinespace_def)
  have ok: "fst (write_LUT_Cinespace P X path decimals fs) \<noteq> Inl InvalidSequenceShapeError \<and>
            fst (write_LUT_Cinespace P X path decimals fs) \<noteq> Inl InvalidLUTTypeError"
    if "\<exists>c LUT'. normalise P X = Inr (c, LUT')" for X
  proof -
    from that obtain c LUT' where n: "normalise P X = Inr (c, LUT')" by blast
    show ?thesis
      using write_errors_after_normalise[OF n, of path decimals fs]
      by (auto simp: runtime_errors_def)
  qed
  show ?thesis
    using a b ok[OF normalise_sequence_ok[of stages' P]] ok[OF normalise_single_ok(1)[of P l]]
      ok[OF normalise_single_ok(2)[of P l]] ok[OF normalise_single_ok(3)[of P l]]
    by blast
qed


theorem write_rejects_other_types_and_shapes_witness:
  "write_LUT_Cinespace dec_ops NotALUT ''y.csp'' 7 Map.empty
     = (Inl InvalidLUTTypeError, NotALUT, Map.empty) \<and>
   write_LUT_Cinespace dec_ops (LUTSequence [LUT3D example_LUT3D]) ''y.csp'' 7 Map.empty
     = (Inl InvalidSequenceShapeError, LUTSequence [LUT3D example_LUT3D], Map.empty) \<and>
   fst (write_LUT_Cinespace dec_ops
          (LUTSequence [LUT3x1D example_LUT3x1D, LUT3D example_LUT3D]) ''y.csp'' 7 Map.empty)
     \<noteq> Inl InvalidSequenceShapeError"
  using write_rejects_other_types_and_shapes[of NotALUT dec_ops "''y.csp''" 7 Map.empty "[LUT3D example_LUT3D]"
           "[LUT3x1D example_LUT3x1D, LUT3D example_LUT3D]" example_LUT3D]
  by simp


subsection \<open>The bounds on the sizes\<close>

text \<open>
  Claim C6, as the code has it. Where the normalised sequence has a shaper whose size
  is outside [2, 65536] the writer fails with \<open>ShaperSizeOutOfRangeError\<close>; where it
  has a cube whose size is outside [2, 256] and the check of the shaper has passed (there
  is no shaper, or its size is within its bounds) the writer fails with
  \<open>CubeSizeOutOfRangeError\<close>. In particular a \<^verbatim>\<open>LUT3x1D\<close> of size 1 or 70000 fails
  with the former and a \<^verbatim>\<open>LUT3D\<close> of size 300 with the latter. In all these cases
  the file system is as before the call.
\<close>

theorem write_size_bounds:
  "(normalise P LUT = Inr (c, LUT') \<and> has_3x1D c \<and> lut_size (stage0 c) = Inr n \<and>
    (n < 2 \<or> 65536 < n) \<longrightarrow>
      write_LUT_Cinespace P LUT path decimals fs = (Inl ShaperSizeOutOfRangeError, LUT', fs)) \<and>
   (normalise P LUT = Inr (c, LUT') \<and> has_3D c \<and> lut_size (stage1 c) = Inr n \<and>
    (n < 2 \<or> 256 < n) \<and>
    (\<not> has_3x1D c \<or> (\<exists>m. lut_size (stage0 c) = Inr m \<and> 2 \<le> m \<and> m \<le> 65536)) \<longrightarrow>
      write_LUT_Cinespace P LUT path decimals fs = (Inl CubeSizeOutOfRangeError, LUT', fs)) \<and>
   (lut_size l = Inr n \<and> (n < 2 \<or> 65536 < n) \<longrightarrow>
      write_LUT_Cinespace P (LUT3x1D l) path decimals fs
        = (Inl ShaperSizeOutOfRangeError, LUT3x1D l, fs)) \<and>
   (lut_size l = Inr n \<and> (n < 2 \<or> 256 < n) \<longrightarrow>
      write_LUT_Cinespace P (LUT3D l) path decimals fs
        = (Inl CubeSizeOutOfRangeError, LUT3D l, fs))"
proof -
  have a: "write_LUT_Cinespace P X path decimals fs = (Inl ShaperSizeOutOfRangeError, X', fs)"
    if "normalise P X = Inr (k, X')" "has_3x1D k" "lut_size (stage0 k) = Inr n"
      "n < 2 \<or> 65536 < n" for X X' k
    using that check_sizes_shaper_out_of_range[of k n]
    by (simp add: write_after_normalise)
  have b: "write_LUT_Cinespace P X path decimals fs = (Inl CubeSizeOutOfRangeError, X', fs)"
    if "normalise P X = Inr (k, X')" "has_3D k" "lut_size (stage1 k) = Inr n"
      "n < 2 \<or> 256 < n"
      "\<not> has_3x1D k \<or> (\<exists>m. lut_size (stage0 k) = Inr m \<and> 2 \<le> m \<and> m \<le> 65536)" for X X' k
    using that check_sizes_cube_out_of_range[of k n]
    by (simp add: write_after_normalise)
  have c: "write_LUT_Cinespace P (LUT3x1D l) path decimals fs
        = (Inl ShaperSizeOutOfRangeError, LUT3x1D l, fs)"
    if "lut_size l = Inr n" "n < 2 \<or> 65536 < n"
    using that by (intro a[where k="\<lparr>has_3D = False, has_3x1D = True,
           non_uniform = is_domain_explicit l,
           lut_name = name l, stage0 = l, stage1 = empty_LUT P\<rparr>"]) simp_all
  have d: "write_LUT_Cinespace P (LUT3D l) path decimals fs
        = (Inl CubeSizeOutOfRangeError, LUT3D l, fs)"
    if "lut_size l = Inr n" "n < 2 \<or> 256 < n"
    using that by (intro b[where k="\<lparr>has_3D = True, has_3x1D = False, non_uniform = False,
           lut_name = name l, stage0 = empty_LUT P, stage1 = l\<rparr>"]) simp_all
  show ?thesis using a[of LUT c LUT'] b[of LUT c LUT'] c d by blast
qed


text \<open>
  The claim C6 as it is written promises \<open>CubeSizeOutOfRangeError\<close> whenever there is
  a cube with a size out of its bounds. The two assertions are made one after the other:
  for the sequence of a shaper of size 1 and a cube of size 300 the writer fails with
  \<open>ShaperSizeOutOfRangeError\<close>.
\<close>

theorem write_shaper_bound_checked_first:
  "lut_size example_large_cube = Inr 300 \<and>
   write_LUT_Cinespace dec_ops
     (LUTSequence [LUT3x1D example_small_shaper, LUT3D example_large_cube]) ''y.csp'' 7 Map.empty
   = (Inl ShaperSizeOutOfRangeError,
      LUTSequence [LUT3x1D example_small_shaper, LUT3D example_large_cube], Map.empty)"
  by (simp add: write_LUT_Cinespace_def check_sizes_def lut_size_def index_def
      example_small_shaper_def example_large_cube_def)


theorem write_size_bounds_witness:
  "write_LUT_Cinespace dec_ops (LUT3x1D example_small_shaper) ''y.csp'' 7 Map.empty
     = (Inl ShaperSizeOutOfRangeError, LUT3x1D example_small_shaper, Map.empty) \<and>
   write_LUT_Cinespace dec_ops (LUT3x1D example_large_shaper) ''y.csp'' 7 Map.empty
     = (Inl ShaperSizeOutOfRangeError, LUT3x1D example_large_shaper, Map.empty) \<and>
   write_LUT_Cinespace dec_ops (LUT3D example_large_cube) ''y.csp'' 7 Map.empty
     = (Inl CubeSizeOutOfRangeError, LUT3D example_large_cube, Map.empty) \<and>
   write_LUT_Cinespace dec_ops
     (LUTSequence [LUT3x1D example_LUT3x1D, LUT3D example_large_cube]) ''y.csp'' 7 Map.empty
     = (Inl CubeSizeOutOfRangeError,
        LUTSequence [LUT3x1D example_LUT3x1D, LUT3D example_large_cube], Map.empty)"
proof -
  have s: "lut_size example_small_shaper = Inr 1" "lut_size example_large_shaper = Inr 70000"
    "lut_size example_large_cube = Inr 300" "lut_size example_LUT3x1D = Inr 2"
    by (simp_all add: lut_size_def index_def example_small_shaper_def
        example_large_shaper_def example_large_cube_def example_LUT3x1D_def)
  let ?k = "\<lparr>has_3D = True, has_3x1D = True, non_uniform = False,
             lut_name = name example_large_cube, stage0 = example_LUT3x1D,
             stage1 = example_large_cube\<rparr>"
  have n: "normalise dec_ops (LUTSequence [LUT3x1D example_LUT3x1D, LUT3D example_large_cube])
           = Inr (?k, LUTSequence [LUT3x1D example_LUT3x1D, LUT3D example_large_cube])"
    by simp
  show ?thesis
    using write_size_bounds[of dec_ops "LUTSequence [LUT3x1D example_LUT3x1D, LUT3D example_large_cube]" ?k
              "LUTSequence [LUT3x1D example_LUT3x1D, LUT3D example_large_cube]" 300
              "''y.csp''" 7 Map.empty example_large_cube]
          write_size_bounds[of dec_ops NotALUT ?k NotALUT 1 "''y.csp''" 7 Map.empty example_small_shaper]
          write_size_bounds[of dec_ops NotALUT ?k NotALUT 70000 "''y.csp''" 7 Map.empty example_large_shaper]
          s n
    by simp
qed

subsection \<open>The shaper that is not uniform\<close>



end
